theory Spec2Isabelle
  imports Complex_Main "HOL-Library.Log_Nat" "HOL-Library.Sublist"
begin

section \<open>Data model\<close>

text \<open>
  The documents of \<^verbatim>\<open>src/models/Tournament.js\<close> and of the user model, as records.
  An ObjectId is a natural number, a Date is an integer (milliseconds since the epoch),
  a Number is an integer (within the range where the doubles of the source are exact), a
  String is the sequence of its UTF-8 bytes. A field that may be absent (no default, not
  required) is an
  option. Fields that no modelled operation reads or writes (description, game, format,
  prizePool, rules, settings, sponsors, stream) are left out.
\<close>

type_synonym objectId = nat
type_synonym instant = int

datatype tournament_status = Draft | Registration | Upcoming | Live | Completed | Cancelled

datatype team_status = Registered | Confirmed | Eliminated | Winner

datatype match_status = MPending | MLive | MCompleted

record player =
  userId :: objectId
  username :: string
  role :: string

record team =
  teamId :: objectId
  players :: "player list"
  registeredAt :: instant
  teamStatus :: team_status
  teamScore :: int
  placement :: "int option"

record score =
  team1Score :: int
  team2Score :: int

record match =
  matchId :: string
  team1 :: "objectId option"
  team2 :: "objectId option"
  winner :: "objectId option"
  matchScore :: "score option"
  matchStatus :: match_status
  scheduledTime :: "instant option"
  completedAt :: "instant option"

record bracket =
  roundNo :: int
  matches :: "match list"

record chat_message =
  msgId :: objectId
  msgUserId :: "objectId option"
  msgUsername :: string
  message :: string
  timestamp :: instant
  isSystemMessage :: bool

record dates =
  registrationStart :: instant
  registrationEnd :: instant
  tournamentStart :: instant
  tournamentEnd :: "instant option"

record participants =
  maxTeams :: int
  currentTeams :: int
  teams :: "team list"

record organizer =
  organizerId :: objectId
  organizerName :: string
  contact :: string

record statistics =
  totalRegistrations :: int
  totalViews :: int
  peakViewers :: int

record tournament =
  tournamentId :: objectId
  name :: string
  status :: tournament_status
  dates :: dates
  participants :: participants
  brackets :: "bracket list"
  organizer :: organizer
  chat :: "chat_message list"
  statistics :: statistics

datatype user_tournament_status = UTRegistered | UTActive | UTCompleted | UTEliminated

record user_tournament =
  utTournamentId :: objectId
  utRegisteredAt :: instant
  utStatus :: user_tournament_status

record stats =
  totalWins :: int
  totalLosses :: int
  totalScore :: int
  globalRank :: "int option"

record game_stat =
  game :: string
  wins :: int
  losses :: int
  gameScore :: int
  gameRank :: "int option"

record user =
  uid :: objectId
  uname :: string
  email :: string
  stats :: stats
  gameStats :: "game_stat list"
  tournaments :: "user_tournament list"
  isActive :: bool

text \<open>
  The failures of the route handlers, named as the specification names them. In the
  source each is an early \<^verbatim>\<open>return res.status(...)\<close> or a thrown \<^verbatim>\<open>Error\<close> that the
  handler's \<^verbatim>\<open>catch\<close> turns into a response:
  \<^item> \<open>TournamentNotFound\<close>, \<open>UserNotFound\<close>, \<open>MatchNotFound\<close>, \<open>MessageNotFound\<close>: status 404;
  \<^item> \<open>Forbidden\<close>: status 403;
  \<^item> \<open>ValidationFailed\<close>: status 400, "Validation failed";
  \<^item> \<open>ServerError\<close>: status 500, "Server error": \<^verbatim>\<open>save()\<close> rejected the document,
    which the schema does not accept, and nothing was stored;
  \<^item> \<open>Conflict\<close>: the thrown "Tournament is full";
  \<^item> \<open>RegistrationClosed\<close>: the thrown "Registration is not open";
  \<^item> \<open>DuplicateRegistration\<close>: "Already registered for this tournament";
  \<^item> \<open>TournamentLocked\<close>: "Cannot unregister from active or completed tournament";
  \<^item> \<open>NotRegistered\<close>: "Not registered for this tournament".
\<close>

datatype error =
    TournamentNotFound | UserNotFound | MatchNotFound | MessageNotFound
  | Forbidden | ValidationFailed | ServerError
  | Conflict | RegistrationClosed | DuplicateRegistration
  | TournamentLocked | NotRegistered

section \<open>Strings\<close>

text \<open>
  The white space that \<^verbatim>\<open>String.prototype.trim\<close> (the schema's \<^verbatim>\<open>trim: true\<close>) and the
  sanitizer \<^verbatim>\<open>trim()\<close> of the validators remove, the class \<^verbatim>\<open>\s\<close>: the code points
  U+0009 to U+000D, U+0020, U+00A0, U+1680, U+2000 to U+200A, U+2028, U+2029, U+202F,
  U+205F, U+3000 and U+FEFF, each in UTF-8.
\<close>

definition js_whitespace :: "string list" where
  "js_whitespace =
     [[CHR 0x09], [CHR 0x0A], [CHR 0x0B], [CHR 0x0C], [CHR 0x0D], [CHR 0x20],
      [CHR 0xC2, CHR 0xA0], [CHR 0xE1, CHR 0x9A, CHR 0x80],
      [CHR 0xE2, CHR 0x80, CHR 0x80], [CHR 0xE2, CHR 0x80, CHR 0x81],
      [CHR 0xE2, CHR 0x80, CHR 0x82], [CHR 0xE2, CHR 0x80, CHR 0x83],
      [CHR 0xE2, CHR 0x80, CHR 0x84], [CHR 0xE2, CHR 0x80, CHR 0x85],
      [CHR 0xE2, CHR 0x80, CHR 0x86], [CHR 0xE2, CHR 0x80, CHR 0x87],
      [CHR 0xE2, CHR 0x80, CHR 0x88], [CHR 0xE2, CHR 0x80, CHR 0x89],
      [CHR 0xE2, CHR 0x80, CHR 0x8A], [CHR 0xE2, CHR 0x80, CHR 0xA8],
      [CHR 0xE2, CHR 0x80, CHR 0xA9], [CHR 0xE2, CHR 0x80, CHR 0xAF],
      [CHR 0xE2, CHR 0x81, CHR 0x9F], [CHR 0xE3, CHR 0x80, CHR 0x80],
      [CHR 0xEF, CHR 0xBB, CHR 0xBF]]"

text \<open>One of the given byte sequences taken off the front of a string, if it starts with one.\<close>

fun strip_one :: "string list \<Rightarrow> string \<Rightarrow> string option" where
  "strip_one [] s = None"
| "strip_one (w # ws) s =
     (if w \<noteq> [] \<and> prefix w s then Some (drop (length w) s) else strip_one ws s)"

lemma strip_one_shorter: "strip_one ws s = Some rest \<Longrightarrow> length rest < length s"
proof (induction ws)
  case Nil
  then show ?case by simp
next
  case (Cons w ws)
  show ?case
  proof (cases "w \<noteq> [] \<and> prefix w s")
    case True
    then have "length w \<le> length s" and "w \<noteq> []"
      by (simp_all add: prefix_length_le)
    then have "length s - length w < length s"
      by (cases w) auto
    with True Cons.prems show ?thesis
      by auto
  next
    case False
    with Cons show ?thesis
      by auto
  qed
qed

function lstrip :: "string list \<Rightarrow> string \<Rightarrow> string" where
  "lstrip ws s = (case strip_one ws s of None \<Rightarrow> s | Some rest \<Rightarrow> lstrip ws rest)"
  by pat_completeness auto
termination
  by (relation "measure (\<lambda>(ws, s). length s)") (auto simp: strip_one_shorter)

text \<open>White space is removed at the front, then, on the reversed string, at the end.\<close>

definition trim :: "string \<Rightarrow> string" where
  "trim s = rev (lstrip (map rev js_whitespace) (rev (lstrip js_whitespace s)))"

text \<open>
  The number of code points of a string (its bytes that are not continuation bytes), and
  its \<^verbatim>\<open>length\<close> in JavaScript, the number of UTF-16 code units: a code point of four
  bytes takes two units.
\<close>

definition codepoints :: "string \<Rightarrow> nat" where
  "codepoints s =
     length (filter (\<lambda>c. \<not> (128 \<le> (of_char c :: nat) \<and> (of_char c :: nat) < 192)) s)"

definition utf16_length :: "string \<Rightarrow> nat" where
  "utf16_length s = codepoints s + length (filter (\<lambda>c. 240 \<le> (of_char c :: nat)) s)"

section \<open>Lifecycle\<close>

text \<open>
  \<^verbatim>\<open>tournamentSchema.methods.updateStatus\<close>: the chain of comparisons of the source, in
  its order, \<^verbatim>\<open>new Date()\<close> being the argument \<open>now\<close>. The chain has no final
  \<^verbatim>\<open>else\<close>: when no branch applies the document is left as it is. A Date object is
  truthy, so \<^verbatim>\<open>!this.dates.tournamentEnd\<close> holds exactly when the end is absent.
\<close>

definition updateStatus :: "instant \<Rightarrow> tournament \<Rightarrow> tournament" where
  "updateStatus now t =
     (if now < registrationStart (dates t) then t\<lparr>status := Draft\<rparr>
      else if now \<ge> registrationStart (dates t) \<and> now \<le> registrationEnd (dates t)
        then t\<lparr>status := Registration\<rparr>
      else if now > registrationEnd (dates t) \<and> now < tournamentStart (dates t)
        then t\<lparr>status := Upcoming\<rparr>
      else if now \<ge> tournamentStart (dates t) \<and>
              (case tournamentEnd (dates t) of None \<Rightarrow> True | Some e \<Rightarrow> now \<le> e)
        then t\<lparr>status := Live\<rparr>
      else if (case tournamentEnd (dates t) of None \<Rightarrow> False | Some e \<Rightarrow> now > e)
        then t\<lparr>status := Completed\<rparr>
      else t)"

section \<open>Registration\<close>

text \<open>The virtual \<^verbatim>\<open>registrationOpen\<close>: the window and the stored status, all three.\<close>

definition registrationOpen :: "instant \<Rightarrow> tournament \<Rightarrow> bool" where
  "registrationOpen now t =
     (now \<ge> registrationStart (dates t) \<and> now \<le> registrationEnd (dates t) \<and>
      status t = Registration)"

text \<open>\<^verbatim>\<open>tournamentSchema.methods.registerTeam\<close>; each \<^verbatim>\<open>throw\<close> is an error value.\<close>

definition registerTeam :: "instant \<Rightarrow> team \<Rightarrow> tournament \<Rightarrow> error + tournament" where
  "registerTeam now teamData t =
     (if currentTeams (participants t) \<ge> maxTeams (participants t) then Inl Conflict
      else if \<not> registrationOpen now t then Inl RegistrationClosed
      else Inr (t\<lparr>participants := (participants t)
                     \<lparr>teams := teams (participants t) @ [teamData],
                      currentTeams := currentTeams (participants t) + 1\<rparr>,
                  statistics := (statistics t)
                     \<lparr>totalRegistrations := totalRegistrations (statistics t) + 1\<rparr>\<rparr>))"

text \<open>
  The test both the registration and the chat route make:
  \<^verbatim>\<open>teams.some(team => team.players.some(player => player.userId === user._id))\<close>.
\<close>

definition alreadyRegistered :: "tournament \<Rightarrow> user \<Rightarrow> bool" where
  "alreadyRegistered t u =
     list_ex (\<lambda>tm. list_ex (\<lambda>p. userId p = uid u) (players tm)) (teams (participants t))"

record register_response =
  respCurrentTeams :: int
  respMaxTeams :: int

text \<open>
  \<^verbatim>\<open>POST /:id/register\<close>. The two \<^verbatim>\<open>findById\<close> results are arguments (\<open>None\<close>: no
  such document). The result is the saved tournament, the saved user and the body of
  the response. The duplicate test comes first, then \<open>registerTeam\<close>.
\<close>

definition register ::
  "instant \<Rightarrow> tournament option \<Rightarrow> user option \<Rightarrow>
   error + (tournament \<times> user \<times> register_response)" where
  "register now found_tournament found_user =
     (case found_tournament of
        None \<Rightarrow> Inl TournamentNotFound
      | Some t \<Rightarrow>
         (case found_user of
            None \<Rightarrow> Inl UserNotFound
          | Some u \<Rightarrow>
             if alreadyRegistered t u then Inl DuplicateRegistration
             else
               (let teamData =
                      \<lparr>teamId = uid u,
                       players = [\<lparr>userId = uid u, username = uname u, role = ''player''\<rparr>],
                       registeredAt = now, teamStatus = Registered, teamScore = 0,
                       placement = None\<rparr>
                in case registerTeam now teamData t of
                     Inl e \<Rightarrow> Inl e
                   | Inr t' \<Rightarrow>
                       Inr (t',
                            u\<lparr>tournaments := tournaments u @
                               [\<lparr>utTournamentId = tournamentId t', utRegisteredAt = now,
                                 utStatus = UTRegistered\<rparr>]\<rparr>,
                            \<lparr>respCurrentTeams = currentTeams (participants t'),
                             respMaxTeams = maxTeams (participants t')\<rparr>))))"

text \<open>\<^verbatim>\<open>Array.prototype.findIndex\<close>, with \<open>None\<close> for the result \<open>-1\<close>.\<close>

fun findIndex :: "('a \<Rightarrow> bool) \<Rightarrow> 'a list \<Rightarrow> nat option" where
  "findIndex P [] = None"
| "findIndex P (x # xs) = (if P x then Some 0 else map_option Suc (findIndex P xs))"

text \<open>\<^verbatim>\<open>xs.splice(i, 1)\<close>: the element at index \<open>i\<close> is removed.\<close>

definition splice1 :: "nat \<Rightarrow> 'a list \<Rightarrow> 'a list" where
  "splice1 i xs = take i xs @ drop (Suc i) xs"

text \<open>
  \<^verbatim>\<open>DELETE /:id/unregister\<close>. The lock reads the stored status. The result is the saved
  tournament and the saved user.
\<close>

definition unregister ::
  "tournament option \<Rightarrow> user option \<Rightarrow> error + (tournament \<times> user)" where
  "unregister found_tournament found_user =
     (case found_tournament of
        None \<Rightarrow> Inl TournamentNotFound
      | Some t \<Rightarrow>
         (case found_user of
            None \<Rightarrow> Inl UserNotFound
          | Some u \<Rightarrow>
             if status t = Live \<or> status t = Completed then Inl TournamentLocked
             else
               (case findIndex (\<lambda>tm. list_ex (\<lambda>p. userId p = uid u) (players tm))
                       (teams (participants t)) of
                  None \<Rightarrow> Inl NotRegistered
                | Some teamIndex \<Rightarrow>
                    Inr (t\<lparr>participants := (participants t)
                             \<lparr>teams := splice1 teamIndex (teams (participants t)),
                              currentTeams := currentTeams (participants t) - 1\<rparr>\<rparr>,
                         u\<lparr>tournaments :=
                             filter (\<lambda>e. utTournamentId e \<noteq> tournamentId t)
                               (tournaments u)\<rparr>))))"

text \<open>
  \<^verbatim>\<open>POST /\<close> (create). The body carries the validated fields that the model keeps
  (the validators want a name that is not empty and a \<open>maxTeams\<close> that is an integer of
  at least 2) and, since the handler spreads the whole body into the document, the two
  capacity fields a client may send as well; a field the body does not give takes the
  schema's default. The schema trims the name, and \<^verbatim>\<open>save()\<close> rejects a document whose
  name is then empty or longer than 100. The handler calls \<open>updateStatus\<close> before saving.
  \<open>newId\<close> is the identifier the store assigns.
\<close>

record create_body =
  bodyName :: string
  bodyDates :: dates
  bodyMaxTeams :: int
  bodyCurrentTeams :: "int option"
  bodyTeams :: "team list option"

definition createTournament ::
  "instant \<Rightarrow> objectId \<Rightarrow> create_body \<Rightarrow> user option \<Rightarrow> error + tournament" where
  "createTournament now newId body found_user =
     (if bodyName body = [] \<or> bodyMaxTeams body < 2 then Inl ValidationFailed
      else case found_user of
        None \<Rightarrow> Inl UserNotFound
      | Some u \<Rightarrow>
          (let tournament = updateStatus now
                 \<lparr>tournamentId = newId, name = trim (bodyName body), status = Draft,
                  dates = bodyDates body,
                  participants =
                    \<lparr>maxTeams = bodyMaxTeams body,
                     currentTeams =
                       (case bodyCurrentTeams body of None \<Rightarrow> 0 | Some c \<Rightarrow> c),
                     teams = (case bodyTeams body of None \<Rightarrow> [] | Some ts \<Rightarrow> ts)\<rparr>,
                  brackets = [],
                  organizer =
                    \<lparr>organizerId = uid u, organizerName = uname u, contact = email u\<rparr>,
                  chat = [],
                  statistics = \<lparr>totalRegistrations = 0, totalViews = 0, peakViewers = 0\<rparr>\<rparr>
           in if name tournament = [] \<or> utf16_length (name tournament) > 100
              then Inl ServerError
              else Inr tournament))"

section \<open>Bracket generation\<close>

text \<open>
  The value of \<^verbatim>\<open>Math.ceil(Math.log2(numTeams))\<close>: for \<open>numTeams = 0\<close> the logarithm is
  \<open>-Infinity\<close> and so is its ceiling; otherwise it is the ceiling of the binary logarithm,
  an integer. The floating-point logarithm is taken to be exact at the powers of two and
  never to reach the next integer elsewhere, so that the ceiling is the mathematical one.
\<close>

datatype jsnum = NegInfinity | Finite int

definition Math_ceil_log2 :: "nat \<Rightarrow> jsnum" where
  "Math_ceil_log2 n = (if n = 0 then NegInfinity else Finite \<lceil>log 2 (real n)\<rceil>)"

text \<open>The comparison \<^verbatim>\<open>x <= y\<close> of a number with an integer.\<close>

fun jsnum_le :: "jsnum \<Rightarrow> int \<Rightarrow> bool" where
  "jsnum_le NegInfinity k = True"
| "jsnum_le (Finite j) k = (j \<le> k)"

text \<open>A natural number in a template literal: its decimal digits.\<close>

definition digit :: "nat \<Rightarrow> char" where
  "digit d = ''0123456789'' ! d"

fun decimal :: "nat \<Rightarrow> string" where
  "decimal n = (if n < 10 then [digit n] else decimal (n div 10) @ [digit (n mod 10)])"

text \<open>\<^verbatim>\<open>teams[k]?.teamId\<close>: nothing when the index is past the end of the array.\<close>

definition teamId_at :: "team list \<Rightarrow> nat \<Rightarrow> objectId option" where
  "teamId_at ts k = (if k < length ts then Some (teamId (ts ! k)) else None)"

text \<open>
  The match pushed by the inner loop at index \<open>i\<close> of round \<open>rnd\<close>. The fields the
  literal does not give take the schema's defaults: the status default is the one the
  literal writes anyway, the others are absent.
\<close>

definition new_match :: "team list \<Rightarrow> int \<Rightarrow> nat \<Rightarrow> match" where
  "new_match ts rnd i =
     \<lparr>matchId = ''R'' @ decimal (nat rnd) @ ''M'' @ decimal (i + 1),
      team1 = (if rnd = 1 then teamId_at ts (i * 2) else None),
      team2 = (if rnd = 1 then teamId_at ts (i * 2 + 1) else None),
      winner = None, matchScore = None, matchStatus = MPending,
      scheduledTime = None, completedAt = None\<rparr>"

text \<open>
  The inner loop \<^verbatim>\<open>for (let i = 0; i < teamsInRound / 2; i++)\<close>, from index \<open>i\<close> on; the
  test \<open>i < teamsInRound / 2\<close> is written without the division.
\<close>

function matches_loop :: "team list \<Rightarrow> int \<Rightarrow> nat \<Rightarrow> nat \<Rightarrow> match list" where
  "matches_loop ts rnd teamsInRound i =
     (if 2 * i < teamsInRound
      then new_match ts rnd i # matches_loop ts rnd teamsInRound (i + 1)
      else [])"
  by pat_completeness auto
termination
  by (relation "measure (\<lambda>(ts, rnd, teamsInRound, i). teamsInRound - 2 * i)") auto

text \<open>
  The outer loop \<^verbatim>\<open>for (let round = 1; round <= rounds; round++)\<close>, from \<open>rnd\<close> on, for
  a finite \<open>rounds\<close>. \<^verbatim>\<open>Math.pow(2, rounds - round + 1)\<close> has a positive exponent inside
  the loop.
\<close>

function rounds_loop :: "team list \<Rightarrow> int \<Rightarrow> int \<Rightarrow> bracket list" where
  "rounds_loop ts rounds rnd =
     (if rnd \<le> rounds
      then \<lparr>roundNo = rnd,
            matches = matches_loop ts rnd (2 ^ nat (rounds - rnd + 1)) 0\<rparr>
           # rounds_loop ts rounds (rnd + 1)
      else [])"
  by pat_completeness auto
termination
  by (relation "measure (\<lambda>(ts, rounds, rnd). nat (rounds + 1 - rnd))") auto

text \<open>
  \<^verbatim>\<open>tournamentSchema.methods.generateBrackets\<close>. With \<open>rounds = -Infinity\<close> the test
  \<open>1 <= rounds\<close> fails at once and the loop body never runs.
\<close>

definition generateBrackets :: "tournament \<Rightarrow> tournament" where
  "generateBrackets t =
     (let confirmed = filter (\<lambda>tm. teamStatus tm = Confirmed) (teams (participants t));
          numTeams = length confirmed;
          rounds = Math_ceil_log2 numTeams;
          generated = (case rounds of
                         NegInfinity \<Rightarrow> []
                       | Finite r \<Rightarrow> rounds_loop confirmed r 1)
      in t\<lparr>brackets := generated\<rparr>)"


section \<open>Match results\<close>

text \<open>
  The body of \<^verbatim>\<open>PUT /:id/match/:matchId\<close>. The submitted winner is either missing, or
  a value that the schema casts to a reference (the field \<^verbatim>\<open>winner\<close> is an ObjectId), or
  any other text, such as a team name, which the schema cannot cast. A score is \<open>None\<close>
  when it is missing or not numeric.
\<close>

datatype submitted_winner = NoWinner | WinnerId objectId | WinnerOther string

record result_body =
  bodyWinner :: submitted_winner
  bodyTeam1Score :: "int option"
  bodyTeam2Score :: "int option"

text \<open>The validator \<^verbatim>\<open>body('winner').notEmpty()\<close>.\<close>

fun winner_notEmpty :: "submitted_winner \<Rightarrow> bool" where
  "winner_notEmpty NoWinner = False"
| "winner_notEmpty (WinnerId w) = True"
| "winner_notEmpty (WinnerOther s) = (s \<noteq> [])"

text \<open>
  The cast of the assignment \<^verbatim>\<open>match.winner = req.body.winner\<close>: \<open>None\<close> when the value
  is no reference; the document then is invalid and \<^verbatim>\<open>save()\<close> rejects it.
\<close>

fun cast_winner :: "submitted_winner \<Rightarrow> objectId option" where
  "cast_winner (WinnerId w) = Some w"
| "cast_winner other = None"

text \<open>The four assignments to the match that was found, the winner as it was cast.\<close>

definition complete_match :: "objectId option \<Rightarrow> score \<Rightarrow> instant \<Rightarrow> match \<Rightarrow> match" where
  "complete_match w sc now m =
     m\<lparr>winner := w, matchScore := Some sc, matchStatus := MCompleted,
       completedAt := Some now\<rparr>"

text \<open>
  The loop over the rounds with its \<^verbatim>\<open>break\<close>: the first round that has a match with
  the id gets the first such match (\<^verbatim>\<open>Array.prototype.find\<close>) updated in place, and
  the rounds after it are not looked at. \<open>None\<close>: \<^verbatim>\<open>matchFound\<close> stayed false.
\<close>

fun record_loop ::
  "string \<Rightarrow> objectId option \<Rightarrow> score \<Rightarrow> instant \<Rightarrow> bracket list \<Rightarrow>
   bracket list option" where
  "record_loop mid w sc now [] = None"
| "record_loop mid w sc now (b # bs) =
     (case findIndex (\<lambda>m. matchId m = mid) (matches b) of
        Some k \<Rightarrow>
          Some (b\<lparr>matches := (matches b)[k := complete_match w sc now (matches b ! k)]\<rparr>
                # bs)
      | None \<Rightarrow> map_option ((#) b) (record_loop mid w sc now bs))"

text \<open>
  The handler: the validators, the lookup, the organizer test, the loop, the answer 404
  when no match was found, and \<^verbatim>\<open>save()\<close>, which throws when the winner could not be
  cast; the handler's \<^verbatim>\<open>catch\<close> then answers 500.
\<close>

definition recordResult ::
  "objectId \<Rightarrow> string \<Rightarrow> result_body \<Rightarrow> instant \<Rightarrow> tournament option \<Rightarrow>
   error + tournament" where
  "recordResult caller mid body now found_tournament =
     (case (winner_notEmpty (bodyWinner body), bodyTeam1Score body, bodyTeam2Score body) of
        (True, Some s1, Some s2) \<Rightarrow>
          (case found_tournament of
             None \<Rightarrow> Inl TournamentNotFound
           | Some t \<Rightarrow>
               if organizerId (organizer t) \<noteq> caller then Inl Forbidden
               else
                 (case record_loop mid (cast_winner (bodyWinner body))
                         \<lparr>team1Score = s1, team2Score = s2\<rparr> now (brackets t) of
                    None \<Rightarrow> Inl MatchNotFound
                  | Some bs \<Rightarrow>
                      if cast_winner (bodyWinner body) = None then Inl ServerError
                      else Inr (t\<lparr>brackets := bs\<rparr>)))
      | _ \<Rightarrow> Inl ValidationFailed)"

section \<open>Chat\<close>





section \<open>Ranking\<close>

text \<open>
  \<^verbatim>\<open>GET /user/:userId/rank\<close> over the user collection \<open>users\<close>, in the order of the
  store. The scope is a game when \<^verbatim>\<open>game && game !== 'overall'\<close>.
\<close>

definition game_scope :: "string option \<Rightarrow> string option" where
  "game_scope g =
     (case g of
        None \<Rightarrow> None
      | Some s \<Rightarrow> if s \<noteq> [] \<and> s \<noteq> ''overall'' then Some s else None)"

text \<open>
  The rows of the aggregation pipeline before \<^verbatim>\<open>$skip\<close>, each a user with the score
  of the scope: the active users, for a game one row for each of a user's entries of
  that game (\<^verbatim>\<open>$unwind\<close>, \<^verbatim>\<open>$match\<close>), sorted by the score, highest first. Rows of
  equal score are kept in the order of the store.
\<close>

definition scope_rows :: "user list \<Rightarrow> string option \<Rightarrow> (user \<times> int) list" where
  "scope_rows users g =
     sort_key (\<lambda>row. - snd row)
       (case game_scope g of
          None \<Rightarrow> map (\<lambda>u. (u, totalScore (stats u))) (filter isActive users)
        | Some s \<Rightarrow>
            concat (map (\<lambda>u. map (\<lambda>st. (u, gameScore st))
                               (filter (\<lambda>st. game st = s) (gameStats u)))
                     (filter isActive users)))"

text \<open>
  \<^verbatim>\<open>countDocuments(rankQuery)\<close>. For a game the query has the two conditions
  \<^verbatim>\<open>gameStats.game = game\<close> and \<^verbatim>\<open>gameStats.score > userScore\<close> on an array field: a
  user matches when some entry has the game and some entry has a greater score.
\<close>

definition usersAbove :: "user list \<Rightarrow> string option \<Rightarrow> int \<Rightarrow> nat" where
  "usersAbove users g userScore =
     (case game_scope g of
        None \<Rightarrow> length (filter (\<lambda>u. isActive u \<and> totalScore (stats u) > userScore) users)
      | Some s \<Rightarrow>
          length (filter (\<lambda>u. isActive u \<and> list_ex (\<lambda>st. game st = s) (gameStats u) \<and>
                            list_ex (\<lambda>st. gameScore st > userScore) (gameStats u)) users))"

record nearby_player =
  npUserId :: objectId
  npScore :: int
  npRank :: int
  isCurrentUser :: bool

definition getUserRank ::
  "user list \<Rightarrow> objectId \<Rightarrow> string option \<Rightarrow> error + (int \<times> nearby_player list)" where
  "getUserRank users requestedId g =
     (case find (\<lambda>u. uid u = requestedId) users of
        None \<Rightarrow> Inl UserNotFound
      | Some user \<Rightarrow>
          (let userScore =
                 (case game_scope g of
                    None \<Rightarrow> totalScore (stats user)
                  | Some s \<Rightarrow>
                      (case find (\<lambda>st. game st = s) (gameStats user) of
                         None \<Rightarrow> 0
                       | Some st \<Rightarrow> gameScore st));
               userRank = int (usersAbove users g userScore) + 1;
               nearbyPlayers =
                 take 11 (drop (nat (max 0 (userRank - 6))) (scope_rows users g));
               rankedPlayers =
                 map (\<lambda>(index, player).
                        \<lparr>npUserId = uid (fst player), npScore = snd player,
                         npRank = max 1 (userRank - 5) + int index,
                         isCurrentUser = (uid (fst player) = requestedId)\<rparr>)
                   (enumerate 0 nearbyPlayers)
           in Inr (userRank, rankedPlayers)))"

section \<open>Properties stated by the specification\<close>

text \<open>
  The capacity invariant: the counter is within its bounds and equals the length of the
  roster.
\<close>

definition capacity_invariant :: "tournament \<Rightarrow> bool" where
  "capacity_invariant t =
     (0 \<le> currentTeams (participants t) \<and>
      currentTeams (participants t) \<le> maxTeams (participants t) \<and>
      currentTeams (participants t) = int (length (teams (participants t))))"

text \<open>
  The tournament document in the store after a handler has run: the saved one when the
  handler succeeded, the one before when it failed (nothing is saved on a failure).
\<close>

definition stored_after :: "error + tournament \<Rightarrow> tournament \<Rightarrow> tournament" where
  "stored_after r t = (case r of Inl e \<Rightarrow> t | Inr t' \<Rightarrow> t')"

text \<open>
  The match a reader of the bracket finds under an id: the first one with that id, in the
  order of the rounds and of the matches within a round.
\<close>

definition findMatch :: "string \<Rightarrow> bracket list \<Rightarrow> match option" where
  "findMatch mid bs = find (\<lambda>m. matchId m = mid) (concat (map matches bs))"

section \<open>The operations on a stored tournament\<close>





section \<open>Example documents\<close>

definition example_dates :: dates where
  "example_dates =
     \<lparr>registrationStart = 100, registrationEnd = 200, tournamentStart = 300,
      tournamentEnd = None\<rparr>"

definition example_tournament :: tournament where
  "example_tournament =
     \<lparr>tournamentId = 1, name = ''Cup'', status = Draft, dates = example_dates,
      participants = \<lparr>maxTeams = 2, currentTeams = 0, teams = []\<rparr>,
      brackets = [],
      organizer = \<lparr>organizerId = 9, organizerName = ''org'', contact = ''org@x''\<rparr>,
      chat = [],
      statistics = \<lparr>totalRegistrations = 0, totalViews = 0, peakViewers = 0\<rparr>\<rparr>"

definition example_user :: "objectId \<Rightarrow> int \<Rightarrow> user" where
  "example_user i sc =
     \<lparr>uid = i, uname = ''player'', email = ''p@x'',
      stats = \<lparr>totalWins = 0, totalLosses = 0, totalScore = sc, globalRank = None\<rparr>,
      gameStats = [], tournaments = [], isActive = True\<rparr>"

definition example_team :: "objectId \<Rightarrow> team_status \<Rightarrow> team" where
  "example_team i st =
     \<lparr>teamId = i, players = [\<lparr>userId = i, username = ''player'', role = ''player''\<rparr>],
      registeredAt = 150, teamStatus = st, teamScore = 0, placement = None\<rparr>"

text \<open>A tournament in its registration window: the given roster, the counter in step.\<close>

definition open_tournament :: "int \<Rightarrow> team list \<Rightarrow> tournament" where
  "open_tournament m ts =
     example_tournament
       \<lparr>status := Registration,
        participants := \<lparr>maxTeams = m, currentTeams = int (length ts), teams = ts\<rparr>\<rparr>"

definition example_body :: create_body where
  "example_body =
     \<lparr>bodyName = ''Cup'', bodyDates = example_dates, bodyMaxTeams = 2,
      bodyCurrentTeams = None, bodyTeams = None\<rparr>"

definition example_roster :: "team list" where
  "example_roster =
     [example_team 1 Confirmed, example_team 2 Confirmed, example_team 20 Registered,
      example_team 3 Confirmed, example_team 4 Confirmed, example_team 5 Confirmed,
      example_team 21 Eliminated, example_team 6 Confirmed, example_team 7 Confirmed,
      example_team 8 Confirmed]"

definition example_confirmed :: "team list" where
  "example_confirmed = map (\<lambda>i. example_team i Confirmed) [1, 2, 3, 4, 5, 6, 7, 8]"

definition example_started :: tournament where
  "example_started =
     example_tournament
       \<lparr>status := Live,
        participants := \<lparr>maxTeams = 16, currentTeams = 10, teams = example_roster\<rparr>\<rparr>"

definition example_match :: "string \<Rightarrow> objectId option \<Rightarrow> objectId option \<Rightarrow> match" where
  "example_match mid a b =
     \<lparr>matchId = mid, team1 = a, team2 = b, winner = None, matchScore = None,
      matchStatus = MPending, scheduledTime = None, completedAt = None\<rparr>"

definition example_brackets :: "bracket list" where
  "example_brackets =
     [\<lparr>roundNo = 1, matches = [example_match ''R1M1'' (Some 1) (Some 2),
                               example_match ''R1M2'' (Some 3) (Some 4)]\<rparr>,
      \<lparr>roundNo = 2, matches = [example_match ''R2M1'' None None]\<rparr>]"

definition example_body_result :: "objectId \<Rightarrow> result_body" where
  "example_body_result w =
     \<lparr>bodyWinner = WinnerId w, bodyTeam1Score = Some 2, bodyTeam2Score = Some 1\<rparr>"



definition twelve_users :: "user list" where
  "twelve_users =
     [example_user 1 120, example_user 2 110, example_user 3 100, example_user 4 90,
      example_user 5 80, example_user 6 70, example_user 7 60, example_user 8 50,
      example_user 9 40, example_user 10 30, example_user 11 20, example_user 12 10]"

section \<open>Claims about the lifecycle\<close>

lemma updateStatus_status_cases:
  "status (updateStatus now t) =
     (if now < registrationStart (dates t) then Draft
      else if now \<le> registrationEnd (dates t) then Registration
      else if now < tournamentStart (dates t) then Upcoming
      else case tournamentEnd (dates t) of
             None \<Rightarrow> Live
           | Some e \<Rightarrow> if now \<le> e then Live else Completed)"
  by (simp add: updateStatus_def split: option.split)

text \<open>
  C1 (as stated, refuted): a tournament whose stored status is \<open>cancelled\<close> and whose
  registration window contains the current time comes out of \<open>updateStatus\<close> with status
  \<open>registration\<close>.
\<close>

theorem C1_cancelled_overwritten:
  "status (example_tournament\<lparr>status := Cancelled\<rparr>) = Cancelled \<and>
   status (updateStatus 150 (example_tournament\<lparr>status := Cancelled\<rparr>)) = Registration"
  by (simp add: updateStatus_def example_tournament_def example_dates_def)

text \<open>
  C1 (amended): the time-derived computation takes no account of the stored status. The
  status after \<open>updateStatus\<close> is the same whatever status was stored before, also when
  that was \<open>cancelled\<close>, and it is never \<open>cancelled\<close>.
\<close>

theorem C1_updateStatus_ignores_stored_status:
  "status (updateStatus now (t\<lparr>status := s\<rparr>)) = status (updateStatus now t) \<and>
   status (updateStatus now t) \<noteq> Cancelled"
  by (simp add: updateStatus_status_cases split: option.split)

text \<open>
  C7 (as stated, refuted): with registration-close equal to start and no end set, at
  \<open>t = start\<close> the status is \<open>registration\<close>, not \<open>live\<close>: the registration window is
  closed on both sides and its branch is tried first.
\<close>

theorem C7_start_equal_close_is_registration:
  "tournamentEnd (dates (example_tournament\<lparr>dates := example_dates\<lparr>tournamentStart := 200\<rparr>\<rparr>)) = None \<and>
   tournamentStart (dates (example_tournament\<lparr>dates := example_dates\<lparr>tournamentStart := 200\<rparr>\<rparr>)) \<le> 200 \<and>
   status (updateStatus 200 (example_tournament\<lparr>dates := example_dates\<lparr>tournamentStart := 200\<rparr>\<rparr>))
     = Registration"
  by (simp add: updateStatus_def example_tournament_def example_dates_def)

text \<open>
  C7 (amended): the derived status is a function of the schedule and the current time
  alone, the cases being tried in the order of the mapping, each one only when the
  earlier ones do not apply: before registration-open it is \<open>draft\<close>; within the
  registration window (inclusive) it is \<open>registration\<close>; after registration-close and
  before start it is \<open>upcoming\<close>; at or after start and after registration-close, with
  no end or not after the end, it is \<open>live\<close>; after a set end (and after
  registration-close and not before start) it is \<open>completed\<close>. For a schedule with no
  end, at every time at or after start and after registration-close the status is
  \<open>live\<close>, and it is never \<open>completed\<close>.
\<close>

theorem C7_derived_status:
  "(dates t' = dates t \<longrightarrow> status (updateStatus now t') = status (updateStatus now t)) \<and>
   (now < registrationStart (dates t) \<longrightarrow> status (updateStatus now t) = Draft) \<and>
   (registrationStart (dates t) \<le> now \<and> now \<le> registrationEnd (dates t)
      \<longrightarrow> status (updateStatus now t) = Registration) \<and>
   (registrationStart (dates t) \<le> now \<and> registrationEnd (dates t) < now \<and>
    now < tournamentStart (dates t)
      \<longrightarrow> status (updateStatus now t) = Upcoming) \<and>
   (registrationStart (dates t) \<le> now \<and> registrationEnd (dates t) < now \<and>
    tournamentStart (dates t) \<le> now \<and> tournamentEnd (dates t) = None
      \<longrightarrow> status (updateStatus now t) = Live) \<and>
   (registrationStart (dates t) \<le> now \<and> registrationEnd (dates t) < now \<and>
    tournamentStart (dates t) \<le> now \<and> tournamentEnd (dates t) = Some e \<and> now \<le> e
      \<longrightarrow> status (updateStatus now t) = Live) \<and>
   (registrationStart (dates t) \<le> now \<and> registrationEnd (dates t) < now \<and>
    tournamentStart (dates t) \<le> now \<and> tournamentEnd (dates t) = Some e \<and> e < now
      \<longrightarrow> status (updateStatus now t) = Completed) \<and>
   (tournamentEnd (dates t) = None \<longrightarrow> status (updateStatus now t) \<noteq> Completed)"
  by (simp add: updateStatus_status_cases)

theorem C7_derived_status_witness:
  "status (updateStatus 50 example_tournament) = Draft \<and>
   status (updateStatus 200 example_tournament) = Registration \<and>
   status (updateStatus 201 example_tournament) = Upcoming \<and>
   status (updateStatus 300 example_tournament) = Live \<and>
   status (updateStatus 100000 example_tournament) = Live \<and>
   status (updateStatus 100000 example_tournament) \<noteq> Completed \<and>
   status (updateStatus 400
     (example_tournament\<lparr>dates := example_dates\<lparr>tournamentEnd := Some 400\<rparr>\<rparr>)) = Live \<and>
   status (updateStatus 401
     (example_tournament\<lparr>dates := example_dates\<lparr>tournamentEnd := Some 400\<rparr>\<rparr>)) = Completed \<and>
   status (updateStatus 300 (example_tournament\<lparr>status := Cancelled\<rparr>)) =
     status (updateStatus 300 example_tournament)"
proof -
  let ?e = "example_tournament\<lparr>dates := example_dates\<lparr>tournamentEnd := Some 400\<rparr>\<rparr>"
  let ?c = "example_tournament\<lparr>status := Cancelled\<rparr>"
  have d: "dates example_tournament = example_dates"
    by (simp add: example_tournament_def)
  have e: "dates ?e = example_dates\<lparr>tournamentEnd := Some 400\<rparr>"
    by simp
  have "status (updateStatus 50 example_tournament) = Draft"
    using C7_derived_status [of example_tournament example_tournament 50 0]
    unfolding d by (simp add: example_dates_def)
  moreover have "status (updateStatus 200 example_tournament) = Registration"
    using C7_derived_status [of example_tournament example_tournament 200 0]
    unfolding d by (simp add: example_dates_def)
  moreover have "status (updateStatus 201 example_tournament) = Upcoming"
    using C7_derived_status [of example_tournament example_tournament 201 0]
    unfolding d by (simp add: example_dates_def)
  moreover have "status (updateStatus 300 example_tournament) = Live"
    using C7_derived_status [of example_tournament example_tournament 300 0]
    unfolding d by (simp add: example_dates_def)
  moreover have "status (updateStatus 100000 example_tournament) = Live \<and>
      status (updateStatus 100000 example_tournament) \<noteq> Completed"
    using C7_derived_status [of example_tournament example_tournament 100000 0]
    unfolding d by (simp add: example_dates_def)
  moreover have "status (updateStatus 400 ?e) = Live"
    using C7_derived_status [of ?e ?e 400 400]
    unfolding e by (simp add: example_dates_def)
  moreover have "status (updateStatus 401 ?e) = Completed"
    using C7_derived_status [of ?e ?e 401 400]
    unfolding e by (simp add: example_dates_def)
  moreover have "status (updateStatus 300 ?c) = status (updateStatus 300 example_tournament)"
  proof -
    have "dates ?c = dates example_tournament"
      by simp
    then show ?thesis
      using C7_derived_status [of ?c example_tournament 300 0] by blast
  qed
  ultimately show ?thesis
    by blast
qed

section \<open>Claims about registration\<close>

lemma findIndex_less: "findIndex P xs = Some i \<Longrightarrow> i < length xs"
  by (induction xs arbitrary: i) (auto split: if_splits)

lemma length_splice1: "i < length xs \<Longrightarrow> length (splice1 i xs) = length xs - 1"
  by (simp add: splice1_def)


lemma open_tournament_simps:
  "status (open_tournament m ts) = Registration"
  "dates (open_tournament m ts) = example_dates"
  "participants (open_tournament m ts) = \<lparr>maxTeams = m, currentTeams = int (length ts), teams = ts\<rparr>"
  "statistics (open_tournament m ts) = \<lparr>totalRegistrations = 0, totalViews = 0, peakViewers = 0\<rparr>"
  "brackets (open_tournament m ts) = []"
  "chat (open_tournament m ts) = []"
  "organizerId (organizer (open_tournament m ts)) = 9"
  by (simp_all add: open_tournament_def example_tournament_def)

lemma example_simps:
  "uid (example_user i sc) = i"
  "teamId (example_team i st) = i"
  "teamStatus (example_team i st) = st"
  "map userId (players (example_team i st)) = [i]"
  by (simp_all add: example_user_def example_team_def)

lemma alreadyRegistered_open:
  "alreadyRegistered (open_tournament m ts) (example_user i sc) =
     list_ex (\<lambda>tm. list_ex (\<lambda>p. userId p = i) (players tm)) ts"
  by (simp add: alreadyRegistered_def open_tournament_simps example_simps)



lemma name_updateStatus: "name (updateStatus now t) = name t"
  by (simp add: updateStatus_def)

lemma trim_Cup: "trim ''Cup'' = ''Cup''"
  by code_simp

lemma utf16_length_Cup: "utf16_length ''Cup'' = 3"
  by code_simp

text \<open>
  C3 (as stated, refuted): a tournament is created from a body that gives \<open>maxTeams = 2\<close>
  and \<open>currentTeams = 5\<close>; the handler spreads the body into the document, which is
  stored with the counter 5 above \<open>maxTeams\<close> and an empty roster. The invariant does not
  hold for it.
\<close>

theorem C3_created_with_counter_over_capacity:
  "createTournament 150 1 (example_body\<lparr>bodyCurrentTeams := Some 5\<rparr>) (Some (example_user 9 0))
     = Inr (example_tournament
             \<lparr>status := Registration,
              participants := \<lparr>maxTeams = 2, currentTeams = 5, teams = []\<rparr>,
              organizer := \<lparr>organizerId = 9, organizerName = ''player'', contact = ''p@x''\<rparr>\<rparr>) \<and>
   \<not> capacity_invariant
       (example_tournament
          \<lparr>status := Registration,
           participants := \<lparr>maxTeams = 2, currentTeams = 5, teams = []\<rparr>,
           organizer := \<lparr>organizerId = 9, organizerName = ''player'', contact = ''p@x''\<rparr>\<rparr>)"
  by (simp add: createTournament_def example_body_def example_user_def example_tournament_def
      example_dates_def updateStatus_def capacity_invariant_def Let_def trim_Cup
      utf16_length_Cup)

text \<open>
  C3 (amended): the invariant \<open>0 \<le> currentTeams \<le> maxTeams\<close> and
  \<open>currentTeams = length roster\<close> holds initially for every tournament created from a body
  that does not itself give the counter or the roster (they take the schema's defaults:
  the counter is 0 and the roster empty), and every \<open>register\<close> and every \<open>unregister\<close>
  preserves it in the stored document, whether the operation succeeds or fails.
\<close>

theorem C3_capacity_invariant:
  "(createTournament now newId body found_user = Inr t0 \<and>
    bodyCurrentTeams body = None \<and> bodyTeams body = None
      \<longrightarrow> currentTeams (participants t0) = 0 \<and> teams (participants t0) = [] \<and>
          capacity_invariant t0) \<and>
   (capacity_invariant t
      \<longrightarrow> capacity_invariant (stored_after (map_sum id fst (register now' (Some t) found_user')) t)) \<and>
   (capacity_invariant t
      \<longrightarrow> capacity_invariant (stored_after (map_sum id fst (unregister (Some t) found_user')) t))"
  apply (intro conjI impI)
  subgoal
    by (auto simp: createTournament_def capacity_invariant_def updateStatus_def Let_def
        split: if_splits option.splits)
  subgoal
    by (auto simp: createTournament_def capacity_invariant_def updateStatus_def Let_def
        split: if_splits option.splits)
  subgoal
    by (auto simp: createTournament_def capacity_invariant_def updateStatus_def Let_def
        split: if_splits option.splits)
  subgoal
    by (auto simp: stored_after_def register_def registerTeam_def capacity_invariant_def split: option.splits sum.splits if_splits)
  subgoal
    by (auto simp: stored_after_def unregister_def capacity_invariant_def length_splice1 dest!: findIndex_less split: option.splits sum.splits if_splits)
  done

text \<open>
  C3, witness: a created tournament, and a tournament with one team of two before and
  after a successful registration and a successful unregistration.
\<close>

theorem C3_capacity_invariant_witness:
  "(\<exists>t0. createTournament 150 1 example_body (Some (example_user 9 0)) = Inr t0 \<and>
      currentTeams (participants t0) = 0 \<and> teams (participants t0) = [] \<and>
      capacity_invariant t0) \<and>
   capacity_invariant (open_tournament 2 [example_team 1 Registered]) \<and>
   capacity_invariant (stored_after (map_sum id fst
     (register 150 (Some (open_tournament 2 [example_team 1 Registered]))
        (Some (example_user 2 0)))) (open_tournament 2 [example_team 1 Registered])) \<and>
   length (teams (participants (stored_after (map_sum id fst
     (register 150 (Some (open_tournament 2 [example_team 1 Registered]))
        (Some (example_user 2 0)))) (open_tournament 2 [example_team 1 Registered])))) = 2 \<and>
   capacity_invariant (stored_after (map_sum id fst
     (unregister (Some (open_tournament 2 [example_team 1 Registered]))
        (Some (example_user 1 0)))) (open_tournament 2 [example_team 1 Registered])) \<and>
   teams (participants (stored_after (map_sum id fst
     (unregister (Some (open_tournament 2 [example_team 1 Registered]))
        (Some (example_user 1 0)))) (open_tournament 2 [example_team 1 Registered]))) = []"
proof -
  let ?t = "open_tournament 2 [example_team 1 Registered]"
  have inv: "capacity_invariant ?t"
    by (simp add: capacity_invariant_def open_tournament_simps)
  obtain t0 where t0: "createTournament 150 1 example_body (Some (example_user 9 0)) = Inr t0"
    by (simp add: createTournament_def example_body_def Let_def name_updateStatus trim_Cup
        utf16_length_Cup)
  have "currentTeams (participants t0) = 0 \<and> teams (participants t0) = [] \<and>
      capacity_invariant t0"
    using C3_capacity_invariant [of 150 1 example_body "Some (example_user 9 0)" t0] t0
    by (simp add: example_body_def)
  with t0 have c: "\<exists>t0. createTournament 150 1 example_body (Some (example_user 9 0)) = Inr t0 \<and>
      currentTeams (participants t0) = 0 \<and> teams (participants t0) = [] \<and>
      capacity_invariant t0"
    by blast
  have r: "capacity_invariant (stored_after (map_sum id fst
     (register 150 (Some ?t) (Some (example_user 2 0)))) ?t)"
    using C3_capacity_invariant [of 0 0 example_body None example_tournament ?t 150 "Some (example_user 2 0)"] inv
    by blast
  have u: "capacity_invariant (stored_after (map_sum id fst
     (unregister (Some ?t) (Some (example_user 1 0)))) ?t)"
    using C3_capacity_invariant [of 0 0 example_body None example_tournament ?t 150 "Some (example_user 1 0)"] inv
    by blast
  have r2: "length (teams (participants (stored_after (map_sum id fst
     (register 150 (Some ?t) (Some (example_user 2 0)))) ?t))) = 2"
    by (simp add: stored_after_def register_def registerTeam_def registrationOpen_def
        alreadyRegistered_open open_tournament_simps example_simps example_dates_def
        example_team_def)
  have u2: "teams (participants (stored_after (map_sum id fst
     (unregister (Some ?t) (Some (example_user 1 0)))) ?t)) = []"
    by (simp add: stored_after_def unregister_def splice1_def
        open_tournament_simps example_simps example_team_def)
  from c inv r r2 u u2 show ?thesis
    by blast
qed

section \<open>Claims about bracket generation\<close>

declare matches_loop.simps [simp del] rounds_loop.simps [simp del] decimal.simps [simp del]

lemma matches_loop_eq:
  "matches_loop ts rnd teamsInRound i =
     map (new_match ts rnd) [i ..< (teamsInRound + 1) div 2]"
proof (induction ts rnd teamsInRound i rule: matches_loop.induct)
  case (1 ts rnd teamsInRound i)
  show ?case
  proof (cases "2 * i < teamsInRound")
    case True
    then have "i < (teamsInRound + 1) div 2" by linarith
    with True 1 show ?thesis
      by (subst matches_loop.simps) (simp add: upt_conv_Cons)
  next
    case False
    then have "\<not> i < (teamsInRound + 1) div 2" by linarith
    with False show ?thesis
      by (subst matches_loop.simps) simp
  qed
qed

lemma rounds_loop_eq:
  "rounds_loop ts rounds rnd =
     map (\<lambda>r. \<lparr>roundNo = r, matches = map (new_match ts r) [0 ..< 2 ^ nat (rounds - r)]\<rparr>)
       [rnd .. rounds]"
proof (induction ts rounds rnd rule: rounds_loop.induct)
  case (1 ts rounds rnd)
  show ?case
  proof (cases "rnd \<le> rounds")
    case True
    have "nat (rounds - rnd + 1) = Suc (nat (rounds - rnd))"
      using True by linarith
    then have "((2::nat) ^ nat (rounds - rnd + 1) + 1) div 2 = 2 ^ nat (rounds - rnd)"
      by simp
    with True 1 show ?thesis
      by (subst rounds_loop.simps) (simp add: matches_loop_eq upto_rec1 [of rnd rounds])
  next
    case False
    then show ?thesis
      by (subst rounds_loop.simps) simp
  qed
qed

lemma upto_as_upt: "[1 .. int R] = map int [1 ..< Suc R]"
proof (induction R)
  case 0
  then show ?case by simp
next
  case (Suc R)
  have "[1 .. int (Suc R)] = [1 .. int R] @ [int (Suc R)]"
    using upto_rec2 [of 1 "int (Suc R)"] by simp
  with Suc show ?case by simp
qed

lemma ceiling_log2_nonneg: "0 < n \<Longrightarrow> 0 \<le> \<lceil>log 2 (real n)\<rceil>"
proof -
  assume "0 < n"
  then have "0 \<le> log 2 (real n)" by simp
  then show ?thesis by linarith
qed

lemma ceiling_log2_pos: "2 \<le> n \<Longrightarrow> 1 \<le> \<lceil>log 2 (real n)\<rceil>"
proof -
  assume "2 \<le> n"
  then have "0 < log 2 (real n)" by simp
  then show ?thesis by linarith
qed

lemma generateBrackets_brackets:
  assumes "0 < length (filter (\<lambda>tm. teamStatus tm = Confirmed) (teams (participants t)))"
  shows "brackets (generateBrackets t) =
     map (\<lambda>r. \<lparr>roundNo = int r,
                matches = map (new_match (filter (\<lambda>tm. teamStatus tm = Confirmed)
                                 (teams (participants t))) (int r))
                            [0 ..< 2 ^ (nat \<lceil>log 2 (real (length (filter
                               (\<lambda>tm. teamStatus tm = Confirmed) (teams (participants t)))))\<rceil> - r)]\<rparr>)
       [1 ..< Suc (nat \<lceil>log 2 (real (length (filter (\<lambda>tm. teamStatus tm = Confirmed)
          (teams (participants t)))))\<rceil>)]"
proof -
  let ?c = "filter (\<lambda>tm. teamStatus tm = Confirmed) (teams (participants t))"
  let ?R = "\<lceil>log 2 (real (length ?c))\<rceil>"
  have nn: "0 \<le> ?R"
    using assms by (rule ceiling_log2_nonneg)
  then have up: "[1 .. ?R] = map int [1 ..< Suc (nat ?R)]"
    using upto_as_upt [of "nat ?R"] by simp
  have sub: "nat (?R - int r) = nat ?R - r" for r
    using nn by linarith
  have "brackets (generateBrackets t) = rounds_loop ?c ?R 1"
    using assms by (simp add: generateBrackets_def Math_ceil_log2_def Let_def)
  also have "\<dots> = map (\<lambda>r. \<lparr>roundNo = r, matches = map (new_match ?c r) [0 ..< 2 ^ nat (?R - r)]\<rparr>)
       [1 .. ?R]"
    by (rule rounds_loop_eq)
  finally show ?thesis
    unfolding up by (simp add: sub o_def)
qed

lemma digit_inj: "d < 10 \<Longrightarrow> e < 10 \<Longrightarrow> digit d = digit e \<Longrightarrow> d = e"
proof -
  assume d: "d < 10" and e: "e < 10" and eq: "digit d = digit e"
  have dist: "distinct ''0123456789''" by simp
  have len: "length ''0123456789'' = 10" by simp
  from d e eq show ?thesis
    unfolding digit_def using nth_eq_iff_index_eq [OF dist, of d e] len by simp
qed

lemma digit_not_M: "d < 10 \<Longrightarrow> digit d \<noteq> CHR ''M''"
proof -
  assume d: "d < 10"
  have "CHR ''M'' \<notin> set ''0123456789''" by simp
  moreover have "digit d \<in> set ''0123456789''"
    unfolding digit_def using d by (intro nth_mem) simp
  ultimately show ?thesis by metis
qed

lemma decimal_not_Nil: "decimal n \<noteq> []"
  by (subst decimal.simps) simp

lemma decimal_no_M: "CHR ''M'' \<notin> set (decimal n)"
proof (induction n rule: decimal.induct)
  case (1 n)
  show ?case
  proof (cases "n < 10")
    case True
    then show ?thesis
      using digit_not_M [of n] by (subst decimal.simps) auto
  next
    case False
    have "n mod 10 < 10" by simp
    then have "digit (n mod 10) \<noteq> CHR ''M''" by (rule digit_not_M)
    with False 1 show ?thesis
      by (subst decimal.simps) auto
  qed
qed

lemma decimal_inj: "decimal n = decimal m \<Longrightarrow> n = m"
proof (induction n arbitrary: m rule: decimal.induct)
  case (1 n)
  show ?case
  proof (cases "n < 10")
    case n: True
    show ?thesis
    proof (cases "m < 10")
      case True
      with n "1.prems" show ?thesis
        using digit_inj [of n m] by (simp add: decimal.simps [of n] decimal.simps [of m])
    next
      case False
      with n "1.prems" show ?thesis
        using decimal_not_Nil [of "m div 10"]
        by (simp add: decimal.simps [of n] decimal.simps [of m])
    qed
  next
    case n: False
    show ?thesis
    proof (cases "m < 10")
      case True
      with n "1.prems" show ?thesis
        using decimal_not_Nil [of "n div 10"]
        by (simp add: decimal.simps [of n] decimal.simps [of m])
    next
      case False
      with n "1.prems" have eq: "decimal (n div 10) = decimal (m div 10)"
        and dg: "digit (n mod 10) = digit (m mod 10)"
        by (simp_all add: decimal.simps [of n] decimal.simps [of m])
      from eq n have "n div 10 = m div 10" by (rule "1.IH" [rotated])
      moreover from dg have "n mod 10 = m mod 10"
        by (intro digit_inj) simp_all
      ultimately show ?thesis
        by (metis div_mult_mod_eq)
    qed
  qed
qed

lemma matchId_inj:
  assumes "''R'' @ decimal a @ ''M'' @ decimal b = ''R'' @ decimal c @ ''M'' @ decimal d"
  shows "a = c \<and> b = d"
proof -
  let ?P = "\<lambda>ch. ch \<noteq> CHR ''M''"
  from assms have eq: "decimal a @ ''M'' @ decimal b = decimal c @ ''M'' @ decimal d"
    by simp
  have tw: "takeWhile ?P (decimal x @ ''M'' @ decimal y) = decimal x" for x y
    using decimal_no_M [of x] by (subst takeWhile_append2) auto
  from eq have "takeWhile ?P (decimal a @ ''M'' @ decimal b) =
      takeWhile ?P (decimal c @ ''M'' @ decimal d)"
    by simp
  then have ac: "decimal a = decimal c"
    unfolding tw .
  with eq have "decimal b = decimal d"
    by simp
  with ac show ?thesis
    by (simp add: decimal_inj)
qed

lemma distinct_concat_map:
  assumes "distinct rs"
    and "\<And>r. distinct (g r)"
    and "\<And>r r' x y. f r x = f r' y \<Longrightarrow> r = r' \<and> x = y"
  shows "distinct (concat (map (\<lambda>r. map (f r) (g r)) rs))"
  using assms(1)
proof (induction rs)
  case Nil
  then show ?case by simp
next
  case (Cons r rs)
  have "inj_on (f r) (set (g r))"
    using assms(3) by (auto simp: inj_on_def)
  then have "distinct (map (f r) (g r))"
    using assms(2) by (simp add: distinct_map)
  moreover have "set (map (f r) (g r)) \<inter> set (concat (map (\<lambda>r. map (f r) (g r)) rs)) = {}"
    using Cons.prems assms(3) by fastforce
  ultimately show ?case
    using Cons by simp
qed

lemma ceiling_log2_8: "\<lceil>log 2 (real 8)\<rceil> = 3"
proof -
  have "real 8 = 2 ^ 3" by simp
  then have "log 2 (real 8) = 3"
    by (simp only: log_pow_cancel)
  then show ?thesis by simp
qed

text \<open>
  C4: for a roster with \<open>n \<ge> 2\<close> confirmed teams, \<open>generateBrackets\<close> replaces the bracket
  by \<open>R = \<lceil>log\<^sub>2 n\<rceil>\<close> rounds, numbered from 1, where round \<open>r\<close> has exactly \<open>2\<^sup>R\<^sup>-\<^sup>r\<close> matches.
  Match \<open>i\<close> of round 1 has the confirmed teams \<open>2i\<close> and \<open>2i+1\<close> of the roster, in roster
  order, in its two slots (a slot whose index is past the end of the confirmed roster is
  empty); both slots of every match of a later round are empty; every match is
  \<open>pending\<close> and has no winner; the id of match \<open>i\<close> of round \<open>r\<close> is the string
  \<open>R\<close>, \<open>r\<close>, \<open>M\<close>, \<open>i+1\<close> in decimal, and no two matches of the bracket have the same id.
  For \<open>n = 8\<close> there are 3 rounds, of 4, 2 and 1 matches.
\<close>

theorem C4_generateBrackets:
  assumes c: "confirmed = filter (\<lambda>tm. teamStatus tm = Confirmed) (teams (participants t))"
    and n: "n = length confirmed"
    and n2: "2 \<le> n"
    and R: "R = nat \<lceil>log 2 (real n)\<rceil>"
    and bs: "bs = brackets (generateBrackets t)"
  shows "int R = \<lceil>log 2 (real n)\<rceil> \<and> 1 \<le> R \<and>
    generateBrackets t = t\<lparr>brackets := bs\<rparr> \<and>
    length bs = R \<and>
    (\<forall>r. 1 \<le> r \<and> r \<le> R \<longrightarrow>
       roundNo (bs ! (r - 1)) = int r \<and>
       length (matches (bs ! (r - 1))) = 2 ^ (R - r) \<and>
       (\<forall>i < 2 ^ (R - r).
          matchId (matches (bs ! (r - 1)) ! i) = ''R'' @ decimal r @ ''M'' @ decimal (i + 1) \<and>
          matchStatus (matches (bs ! (r - 1)) ! i) = MPending \<and>
          winner (matches (bs ! (r - 1)) ! i) = None \<and>
          (r = 1 \<longrightarrow> team1 (matches (bs ! (r - 1)) ! i) = teamId_at confirmed (2 * i) \<and>
                   team2 (matches (bs ! (r - 1)) ! i) = teamId_at confirmed (2 * i + 1)) \<and>
          (r = 1 \<and> 2 * i + 1 < n \<longrightarrow>
             team1 (matches (bs ! (r - 1)) ! i) = Some (teamId (confirmed ! (2 * i))) \<and>
             team2 (matches (bs ! (r - 1)) ! i) = Some (teamId (confirmed ! (2 * i + 1)))) \<and>
          (1 < r \<longrightarrow> team1 (matches (bs ! (r - 1)) ! i) = None \<and>
                   team2 (matches (bs ! (r - 1)) ! i) = None))) \<and>
    distinct (map matchId (concat (map matches bs))) \<and>
    (n = 8 \<longrightarrow> map (\<lambda>b. length (matches b)) bs = [4, 2, 1])"
    (is "_ \<and> _ \<and> _ \<and> _ \<and> (\<forall>r. ?A r \<longrightarrow> ?B r) \<and> _ \<and> _")
proof -
  have "0 < n"
    using n2 by simp
  then have pos: "0 < length (filter (\<lambda>tm. teamStatus tm = Confirmed) (teams (participants t)))"
    unfolding n c .
  have bs_eq: "bs = map (\<lambda>r. \<lparr>roundNo = int r,
                  matches = map (new_match confirmed (int r)) [0 ..< 2 ^ (R - r)]\<rparr>)
                [1 ..< Suc R]"
    unfolding bs generateBrackets_brackets [OF pos] c n R ..
  have R1: "int R = \<lceil>log 2 (real n)\<rceil>" and R2: "1 \<le> R"
    using ceiling_log2_pos [OF n2] R by linarith+
  have upd: "generateBrackets t = t\<lparr>brackets := bs\<rparr>"
    unfolding bs by (simp add: generateBrackets_def Let_def)
  have len: "length bs = R"
    unfolding bs_eq by simp
  have nth: "bs ! (r - 1) = \<lparr>roundNo = int r,
        matches = map (new_match confirmed (int r)) [0 ..< 2 ^ (R - r)]\<rparr>"
    if "1 \<le> r" "r \<le> R" for r
  proof -
    have lt: "r - 1 < length [1 ..< Suc R]"
      using that by simp
    have "1 + (r - 1) < Suc R"
      using that by simp
    then have "[1 ..< Suc R] ! (r - 1) = 1 + (r - 1)"
      by (rule nth_upt)
    then have "[1 ..< Suc R] ! (r - 1) = r"
      using that by simp
    then show ?thesis
      unfolding bs_eq nth_map [OF lt] by (simp only:)
  qed
  have rounds: "?B r"
    if r: "1 \<le> r" "r \<le> R" for r
  proof -
    have m: "matches (bs ! (r - 1)) ! i = new_match confirmed (int r) i"
      if "i < 2 ^ (R - r)" for i
      unfolding nth [OF r] using that by simp
    have l: "length (matches (bs ! (r - 1))) = 2 ^ (R - r)"
      unfolding nth [OF r] by simp
    have k: "roundNo (bs ! (r - 1)) = int r"
      unfolding nth [OF r] by simp
    have props: "matchId x = ''R'' @ decimal r @ ''M'' @ decimal (i + 1) \<and>
          matchStatus x = MPending \<and> winner x = None \<and>
          (r = 1 \<longrightarrow> team1 x = teamId_at confirmed (2 * i) \<and>
                   team2 x = teamId_at confirmed (2 * i + 1)) \<and>
          (r = 1 \<and> 2 * i + 1 < n \<longrightarrow>
             team1 x = Some (teamId (confirmed ! (2 * i))) \<and>
             team2 x = Some (teamId (confirmed ! (2 * i + 1)))) \<and>
          (1 < r \<longrightarrow> team1 x = None \<and> team2 x = None)"
      if "x = new_match confirmed (int r) i" for x i
      unfolding that using n
      by (simp add: new_match_def teamId_at_def mult.commute)
    show ?thesis
      using l k props [OF m] by blast
  qed
  have ids: "map matchId (concat (map matches bs)) =
      concat (map (\<lambda>r. map (\<lambda>i. ''R'' @ decimal r @ ''M'' @ decimal (i + 1)) [0 ..< 2 ^ (R - r)])
        [1 ..< Suc R])"
    unfolding bs_eq by (simp add: map_concat o_def new_match_def)
  have dist: "distinct (map matchId (concat (map matches bs)))"
    unfolding ids
  proof (rule distinct_concat_map)
    show "distinct [1 ..< Suc R]"
      by simp
    show "distinct [0 ..< 2 ^ (R - r)]" for r
      by simp
    show "r = r' \<and> x = y"
      if "''R'' @ decimal r @ ''M'' @ decimal (x + 1) = ''R'' @ decimal r' @ ''M'' @ decimal (y + 1)"
      for r r' x y :: nat
      using matchId_inj [OF that] by simp
  qed
  have eight: "map (\<lambda>b. length (matches b)) bs = [4, 2, 1]" if "n = 8"
  proof -
    have "R = 3"
      using R that ceiling_log2_8 by simp
    then have "[1 ..< Suc R] = [1, 2, 3]"
      by (simp add: upt_conv_Cons)
    then show ?thesis
      unfolding bs_eq using \<open>R = 3\<close> by (simp add: o_def)
  qed
  have rounds': "\<forall>r. ?A r \<longrightarrow> ?B r"
  proof (intro allI impI)
    fix r
    assume "?A r"
    then have "1 \<le> r" and "r \<le> R"
      by simp_all
    then show "?B r"
      by (rule rounds)
  qed
  have eight': "n = 8 \<longrightarrow> map (\<lambda>b. length (matches b)) bs = [4, 2, 1]"
    using eight by (rule impI)
  show ?thesis
    by (intro conjI R1 R2 upd len rounds' dist eight')
qed

lemma Math_ceil_log2_code [code]:
  "Math_ceil_log2 n = (if n = 0 then NegInfinity else Finite (int (ceillog2 n)))"
proof (cases "n = 0")
  case True
  then show ?thesis by (simp add: Math_ceil_log2_def)
next
  case False
  then have "0 \<le> \<lceil>log 2 (real n)\<rceil>"
    using ceiling_log2_nonneg [of n] by simp
  with False show ?thesis
    by (simp add: Math_ceil_log2_def ceillog2_def)
qed

text \<open>
  C4, witness: a roster of ten teams, eight of them confirmed; three rounds of 4, 2 and 1
  matches, the third match of round 1 pairing the confirmed teams at indices 4 and 5.
\<close>

theorem C4_generateBrackets_witness:
  "length (filter (\<lambda>tm. teamStatus tm = Confirmed) (teams (participants example_started))) = 8 \<and>
   length (brackets (generateBrackets example_started)) = 3 \<and>
   map (\<lambda>b. length (matches b)) (brackets (generateBrackets example_started)) = [4, 2, 1] \<and>
   map roundNo (brackets (generateBrackets example_started)) = [1, 2, 3] \<and>
   matchId (matches (brackets (generateBrackets example_started) ! 0) ! 2) = ''R1M3'' \<and>
   team1 (matches (brackets (generateBrackets example_started) ! 0) ! 2) = Some 5 \<and>
   team2 (matches (brackets (generateBrackets example_started) ! 0) ! 2) = Some 6 \<and>
   matchId (matches (brackets (generateBrackets example_started) ! 1) ! 1) = ''R2M2'' \<and>
   team1 (matches (brackets (generateBrackets example_started) ! 1) ! 1) = None \<and>
   team2 (matches (brackets (generateBrackets example_started) ! 1) ! 1) = None \<and>
   matchStatus (matches (brackets (generateBrackets example_started) ! 1) ! 1) = MPending \<and>
   distinct (map matchId (concat (map matches (brackets (generateBrackets example_started)))))"
proof -
  let ?bs = "brackets (generateBrackets example_started)"
  have c: "example_confirmed =
      filter (\<lambda>tm. teamStatus tm = Confirmed) (teams (participants example_started))"
    by (simp add: example_confirmed_def example_started_def example_roster_def example_team_def)
  have n: "8 = length example_confirmed"
    by (simp add: example_confirmed_def)
  have R: "3 = nat \<lceil>log 2 (real 8)\<rceil>"
    by (simp only: ceiling_log2_8)
  note inst = C4_generateBrackets [OF c n _ R refl]
  have all: "int 3 = \<lceil>log 2 (real 8)\<rceil> \<and> 1 \<le> (3::nat) \<and>
    generateBrackets example_started = example_started\<lparr>brackets := ?bs\<rparr> \<and>
    length ?bs = 3 \<and>
    (\<forall>r. 1 \<le> r \<and> r \<le> 3 \<longrightarrow>
       roundNo (?bs ! (r - 1)) = int r \<and>
       length (matches (?bs ! (r - 1))) = 2 ^ (3 - r) \<and>
       (\<forall>i < 2 ^ (3 - r).
          matchId (matches (?bs ! (r - 1)) ! i) = ''R'' @ decimal r @ ''M'' @ decimal (i + 1) \<and>
          matchStatus (matches (?bs ! (r - 1)) ! i) = MPending \<and>
          winner (matches (?bs ! (r - 1)) ! i) = None \<and>
          (r = 1 \<longrightarrow> team1 (matches (?bs ! (r - 1)) ! i) = teamId_at example_confirmed (2 * i) \<and>
                   team2 (matches (?bs ! (r - 1)) ! i) = teamId_at example_confirmed (2 * i + 1)) \<and>
          (r = 1 \<and> 2 * i + 1 < 8 \<longrightarrow>
             team1 (matches (?bs ! (r - 1)) ! i) = Some (teamId (example_confirmed ! (2 * i))) \<and>
             team2 (matches (?bs ! (r - 1)) ! i) = Some (teamId (example_confirmed ! (2 * i + 1)))) \<and>
          (1 < r \<longrightarrow> team1 (matches (?bs ! (r - 1)) ! i) = None \<and>
                   team2 (matches (?bs ! (r - 1)) ! i) = None))) \<and>
    distinct (map matchId (concat (map matches ?bs))) \<and>
    ((8::nat) = 8 \<longrightarrow> map (\<lambda>b. length (matches b)) ?bs = [4, 2, 1])"
    by (rule inst) simp
  from all have len: "length ?bs = 3"
    and dist: "distinct (map matchId (concat (map matches ?bs)))"
    and counts: "map (\<lambda>b. length (matches b)) ?bs = [4, 2, 1]"
    by simp_all
  from all have rounds: "1 \<le> r \<and> r \<le> 3 \<Longrightarrow>
       roundNo (?bs ! (r - 1)) = int r \<and>
       (\<forall>i < 2 ^ (3 - r).
          matchId (matches (?bs ! (r - 1)) ! i) = ''R'' @ decimal r @ ''M'' @ decimal (i + 1) \<and>
          matchStatus (matches (?bs ! (r - 1)) ! i) = MPending \<and>
          (r = 1 \<and> 2 * i + 1 < 8 \<longrightarrow>
             team1 (matches (?bs ! (r - 1)) ! i) = Some (teamId (example_confirmed ! (2 * i))) \<and>
             team2 (matches (?bs ! (r - 1)) ! i) = Some (teamId (example_confirmed ! (2 * i + 1)))) \<and>
          (1 < r \<longrightarrow> team1 (matches (?bs ! (r - 1)) ! i) = None \<and>
                   team2 (matches (?bs ! (r - 1)) ! i) = None))" for r
    by blast
  have r1: "roundNo (?bs ! 0) = 1 \<and> matchId (matches (?bs ! 0) ! 2) = ''R1M3'' \<and>
      team1 (matches (?bs ! 0) ! 2) = Some 5 \<and> team2 (matches (?bs ! 0) ! 2) = Some 6"
    using rounds [of 1]
    by (simp add: decimal.simps digit_def example_confirmed_def example_team_def)
  have r2: "roundNo (?bs ! 1) = 2 \<and> matchId (matches (?bs ! 1) ! 1) = ''R2M2'' \<and>
      team1 (matches (?bs ! 1) ! 1) = None \<and> team2 (matches (?bs ! 1) ! 1) = None \<and>
      matchStatus (matches (?bs ! 1) ! 1) = MPending"
    using rounds [of 2]
    by (simp add: decimal.simps digit_def)
  have r3: "roundNo (?bs ! 2) = 3"
    using rounds [of 3] by simp
  have rn: "map roundNo ?bs = [1, 2, 3]"
  proof -
    from len obtain a b c where abc: "?bs = [a, b, c]"
      by (auto simp: length_Suc_conv numeral_3_eq_3)
    have "roundNo (?bs ! 0) = 1" and "roundNo (?bs ! 1) = 2" and "roundNo (?bs ! 2) = 3"
      using r1 r2 r3 by simp_all
    then show ?thesis
      unfolding abc by simp
  qed
  have "length (filter (\<lambda>tm. teamStatus tm = Confirmed) (teams (participants example_started))) = 8"
    using c n by simp
  with len counts rn r1 r2 dist show ?thesis
    by simp
qed

lemma rounds_loop_none: "rounds < rnd \<Longrightarrow> rounds_loop ts rounds rnd = []"
  by (subst rounds_loop.simps) simp

text \<open>
  C10: for a roster with at most one confirmed team the computed round count is at most
  0 (it is \<open>-Infinity\<close> for no team and 0 for one), and \<open>generateBrackets\<close> replaces the
  bracket by the empty sequence of rounds: no round and no match is created.
\<close>

theorem C10_generateBrackets_no_rounds:
  assumes "length (filter (\<lambda>tm. teamStatus tm = Confirmed) (teams (participants t))) \<le> 1"
  shows "jsnum_le (Math_ceil_log2
            (length (filter (\<lambda>tm. teamStatus tm = Confirmed) (teams (participants t))))) 0 \<and>
         generateBrackets t = t\<lparr>brackets := []\<rparr> \<and>
         brackets (generateBrackets t) = [] \<and>
         concat (map matches (brackets (generateBrackets t))) = []"
proof -
  let ?n = "length (filter (\<lambda>tm. teamStatus tm = Confirmed) (teams (participants t)))"
  from assms consider "?n = 0" | "?n = 1"
    by linarith
  then have "jsnum_le (Math_ceil_log2 ?n) 0 \<and> generateBrackets t = t\<lparr>brackets := []\<rparr>"
  proof cases
    case 1
    then show ?thesis
      by (simp add: generateBrackets_def Math_ceil_log2_def Let_def)
  next
    case 2
    then have "Math_ceil_log2 ?n = Finite 0"
      by (simp add: Math_ceil_log2_def)
    then show ?thesis
      by (simp add: generateBrackets_def Let_def rounds_loop_none)
  qed
  then show ?thesis
    by simp
qed

text \<open>
  C10, witness: one confirmed team among two, over a bracket that had a round before;
  and a tournament with no team at all.
\<close>

theorem C10_generateBrackets_no_rounds_witness:
  "brackets (generateBrackets
     (example_started\<lparr>participants := \<lparr>maxTeams = 16, currentTeams = 2,
        teams = [example_team 1 Confirmed, example_team 2 Registered]\<rparr>,
        brackets := [\<lparr>roundNo = 1, matches = []\<rparr>]\<rparr>)) = [] \<and>
   brackets (generateBrackets example_tournament) = [] \<and>
   jsnum_le (Math_ceil_log2 1) 0 \<and> jsnum_le (Math_ceil_log2 0) 0"
proof -
  let ?t = "example_started\<lparr>participants := \<lparr>maxTeams = 16, currentTeams = 2,
        teams = [example_team 1 Confirmed, example_team 2 Registered]\<rparr>,
        brackets := [\<lparr>roundNo = 1, matches = []\<rparr>]\<rparr>"
  have one: "length (filter (\<lambda>tm. teamStatus tm = Confirmed) (teams (participants ?t))) = 1"
    by (simp add: example_team_def)
  have zero: "length (filter (\<lambda>tm. teamStatus tm = Confirmed)
      (teams (participants example_tournament))) = 0"
    by (simp add: example_tournament_def)
  show ?thesis
    using C10_generateBrackets_no_rounds [of ?t] C10_generateBrackets_no_rounds [of example_tournament]
    unfolding one zero by simp
qed

section \<open>Claims about match results\<close>

lemma findIndex_Some:
  "findIndex P xs = Some k \<Longrightarrow> k < length xs \<and> P (xs ! k) \<and> (\<forall>j<k. \<not> P (xs ! j))"
proof (induction xs arbitrary: k)
  case Nil
  then show ?case by simp
next
  case (Cons x xs)
  show ?case
  proof (cases "P x")
    case True
    with Cons.prems show ?thesis by simp
  next
    case False
    with Cons.prems obtain k' where k: "k = Suc k'" and f: "findIndex P xs = Some k'"
      by auto
    from Cons.IH [OF f] False show ?thesis
      unfolding k by (auto simp: less_Suc_eq_0_disj)
  qed
qed

lemma findIndex_None: "findIndex P xs = None \<longleftrightarrow> (\<forall>x\<in>set xs. \<not> P x)"
  by (induction xs) auto

lemma find_append:
  "find P (xs @ ys) = (case find P xs of None \<Rightarrow> find P ys | Some x \<Rightarrow> Some x)"
  by (induction xs) auto

lemma find_findIndex_None: "findIndex P xs = None \<Longrightarrow> find P xs = None"
  by (simp add: findIndex_None find_None_iff)

lemma find_findIndex_Some:
  "findIndex P xs = Some k \<Longrightarrow> find P xs = Some (xs ! k)"
proof (induction xs arbitrary: k)
  case Nil
  then show ?case by simp
next
  case (Cons x xs)
  then show ?case
    by (cases "P x") auto
qed

lemma find_update_findIndex:
  "findIndex P xs = Some k \<Longrightarrow> P (f (xs ! k)) \<Longrightarrow> find P (xs[k := f (xs ! k)]) = Some (f (xs ! k))"
proof (induction xs arbitrary: k)
  case Nil
  then show ?case by simp
next
  case (Cons x xs)
  then show ?case
    by (cases "P x") auto
qed

lemma matchId_complete_match [simp]: "matchId (complete_match w sc now m) = matchId m"
  by (simp add: complete_match_def)

lemma record_loop_Some:
  "record_loop mid w sc now bs = Some bs' \<Longrightarrow>
     \<exists>r k. r < length bs \<and> k < length (matches (bs ! r)) \<and>
       matchId (matches (bs ! r) ! k) = mid \<and>
       (\<forall>r'<r. \<forall>m\<in>set (matches (bs ! r')). matchId m \<noteq> mid) \<and>
       (\<forall>k'<k. matchId (matches (bs ! r) ! k') \<noteq> mid) \<and>
       bs' = bs[r := (bs ! r)\<lparr>matches := (matches (bs ! r))
                 [k := complete_match w sc now (matches (bs ! r) ! k)]\<rparr>]"
proof (induction bs arbitrary: bs')
  case Nil
  then show ?case by simp
next
  case (Cons b bs)
  show ?case
  proof (cases "findIndex (\<lambda>m. matchId m = mid) (matches b)")
    case (Some k)
    from findIndex_Some [OF Some] Cons.prems Some show ?thesis
      by (intro exI [of _ 0] exI [of _ k]) auto
  next
    case None
    with Cons.prems obtain bs'' where r: "record_loop mid w sc now bs = Some bs''"
      and bs': "bs' = b # bs''"
      by auto
    from Cons.IH [OF r] obtain r k where rk: "r < length bs" "k < length (matches (bs ! r))"
      "matchId (matches (bs ! r) ! k) = mid"
      "\<forall>r'<r. \<forall>m\<in>set (matches (bs ! r')). matchId m \<noteq> mid"
      "\<forall>k'<k. matchId (matches (bs ! r) ! k') \<noteq> mid"
      "bs'' = bs[r := (bs ! r)\<lparr>matches := (matches (bs ! r))
                 [k := complete_match w sc now (matches (bs ! r) ! k)]\<rparr>]"
      by blast
    have none: "\<forall>m\<in>set (matches b). matchId m \<noteq> mid"
      using None by (simp add: findIndex_None)
    have before: "\<forall>r'<Suc r. \<forall>m\<in>set (matches ((b # bs) ! r')). matchId m \<noteq> mid"
    proof (intro allI impI)
      fix r'
      assume "r' < Suc r"
      then show "\<forall>m\<in>set (matches ((b # bs) ! r')). matchId m \<noteq> mid"
        using none rk(4) by (cases r') auto
    qed
    show ?thesis
      using rk before unfolding bs'
      by (intro exI [of _ "Suc r"] exI [of _ k]) simp
  qed
qed

lemma record_loop_exists:
  "\<exists>b\<in>set bs. \<exists>m\<in>set (matches b). matchId m = mid \<Longrightarrow>
     \<exists>bs'. record_loop mid w sc now bs = Some bs'"
proof (induction bs)
  case Nil
  then show ?case by simp
next
  case (Cons b bs)
  show ?case
  proof (cases "findIndex (\<lambda>m. matchId m = mid) (matches b)")
    case (Some k)
    then show ?thesis by simp
  next
    case None
    then have "\<forall>m\<in>set (matches b). matchId m \<noteq> mid"
      by (simp add: findIndex_None)
    with Cons.prems have "\<exists>b\<in>set bs. \<exists>m\<in>set (matches b). matchId m = mid"
      by auto
    from Cons.IH [OF this] None show ?thesis
      by auto
  qed
qed

lemma record_loop_findMatch:
  "record_loop mid w sc now bs = Some bs' \<Longrightarrow>
     \<exists>m. findMatch mid bs = Some m \<and> findMatch mid bs' = Some (complete_match w sc now m)"
proof (induction bs arbitrary: bs')
  case Nil
  then show ?case by simp
next
  case (Cons b bs)
  show ?case
  proof (cases "findIndex (\<lambda>m. matchId m = mid) (matches b)")
    case (Some k)
    have 1: "find (\<lambda>m. matchId m = mid) (matches b) = Some (matches b ! k)"
      using Some by (rule find_findIndex_Some)
    have "matchId (matches b ! k) = mid"
      using findIndex_Some [OF Some] by simp
    then have 2: "find (\<lambda>m. matchId m = mid)
        ((matches b)[k := complete_match w sc now (matches b ! k)])
        = Some (complete_match w sc now (matches b ! k))"
      using Some by (intro find_update_findIndex) simp_all
    from Cons.prems Some have "bs' =
        b\<lparr>matches := (matches b)[k := complete_match w sc now (matches b ! k)]\<rparr> # bs"
      by simp
    then show ?thesis
      using 1 2 by (simp add: findMatch_def find_append)
  next
    case None
    with Cons.prems obtain bs'' where r: "record_loop mid w sc now bs = Some bs''"
      and bs': "bs' = b # bs''"
      by auto
    have "find (\<lambda>m. matchId m = mid) (matches b) = None"
      using None by (rule find_findIndex_None)
    with Cons.IH [OF r] show ?thesis
      unfolding bs' by (simp add: findMatch_def find_append)
  qed
qed

lemma recordResult_Inr:
  assumes "recordResult caller mid body now (Some t) = Inr t'"
  shows "\<exists>w s1 s2 bs'. bodyWinner body = WinnerId w \<and> bodyTeam1Score body = Some s1 \<and>
     bodyTeam2Score body = Some s2 \<and> caller = organizerId (organizer t) \<and>
     record_loop mid (Some w) \<lparr>team1Score = s1, team2Score = s2\<rparr> now (brackets t) = Some bs' \<and>
     t' = t\<lparr>brackets := bs'\<rparr>"
proof (cases "bodyWinner body")
  case NoWinner
  with assms show ?thesis
    by (simp add: recordResult_def)
next
  case (WinnerId w)
  with assms show ?thesis
    by (auto simp: recordResult_def split: option.splits if_splits)
next
  case (WinnerOther s)
  with assms show ?thesis
    by (auto simp: recordResult_def split: option.splits if_splits bool.splits)
qed

lemma map_update_same:
  assumes "g (f (xs ! i)) = g (xs ! i)"
  shows "map g (xs[i := f (xs ! i)]) = map g xs"
proof (cases "i < length xs")
  case True
  with assms show ?thesis
    by (auto simp: list_eq_iff_nth_eq nth_list_update)
next
  case False
  then show ?thesis
    by (simp add: list_update_beyond)
qed

text \<open>
  C5: when \<open>recordResult\<close> succeeds, the caller is the organizer and the bracket has a match
  with the given id; the first such match, in the order of the rounds and of the matches
  of a round, gets the submitted winner, the submitted score, the status \<open>completed\<close> and
  the completion timestamp, and nothing else changes: every other match is as it was, the
  round numbers, the match ids and both team slots of every match of every round are as
  they were (the winner is not carried into a later round), and the roster, the chat log
  and all other fields of the tournament are untouched.
\<close>

theorem C5_recordResult_frame:
  assumes "recordResult caller mid body now (Some t) = Inr t'"
  shows "\<exists>r k w s1 s2.
     bodyWinner body = WinnerId w \<and> bodyTeam1Score body = Some s1 \<and>
     bodyTeam2Score body = Some s2 \<and> caller = organizerId (organizer t) \<and>
     r < length (brackets t) \<and> k < length (matches (brackets t ! r)) \<and>
     matchId (matches (brackets t ! r) ! k) = mid \<and>
     (\<forall>r'<r. \<forall>m\<in>set (matches (brackets t ! r')). matchId m \<noteq> mid) \<and>
     (\<forall>k'<k. matchId (matches (brackets t ! r) ! k') \<noteq> mid) \<and>
     t' = t\<lparr>brackets := (brackets t)
             [r := (brackets t ! r)\<lparr>matches := (matches (brackets t ! r))
                [k := complete_match (Some w) \<lparr>team1Score = s1, team2Score = s2\<rparr> now
                        (matches (brackets t ! r) ! k)]\<rparr>]\<rparr> \<and>
     matches (brackets t' ! r) ! k =
       (matches (brackets t ! r) ! k)
         \<lparr>winner := Some w, matchScore := Some \<lparr>team1Score = s1, team2Score = s2\<rparr>,
          matchStatus := MCompleted, completedAt := Some now\<rparr> \<and>
     (\<forall>r' k'. r' < length (brackets t) \<and> k' < length (matches (brackets t ! r')) \<and>
              (r' \<noteq> r \<or> k' \<noteq> k)
        \<longrightarrow> matches (brackets t' ! r') ! k' = matches (brackets t ! r') ! k') \<and>
     map roundNo (brackets t') = map roundNo (brackets t) \<and>
     map (\<lambda>b. map matchId (matches b)) (brackets t') =
       map (\<lambda>b. map matchId (matches b)) (brackets t) \<and>
     map (\<lambda>b. map team1 (matches b)) (brackets t') =
       map (\<lambda>b. map team1 (matches b)) (brackets t) \<and>
     map (\<lambda>b. map team2 (matches b)) (brackets t') =
       map (\<lambda>b. map team2 (matches b)) (brackets t) \<and>
     participants t' = participants t \<and> chat t' = chat t \<and> status t' = status t \<and>
     dates t' = dates t \<and> statistics t' = statistics t \<and> organizer t' = organizer t \<and>
     name t' = name t \<and> tournamentId t' = tournamentId t"
proof -
  from recordResult_Inr [OF assms] obtain w s1 s2 bs' where
    body: "bodyWinner body = WinnerId w" "bodyTeam1Score body = Some s1"
      "bodyTeam2Score body = Some s2" "caller = organizerId (organizer t)"
    and loop: "record_loop mid (Some w) \<lparr>team1Score = s1, team2Score = s2\<rparr> now (brackets t) = Some bs'"
    and t': "t' = t\<lparr>brackets := bs'\<rparr>"
    by blast
  let ?sc = "\<lparr>team1Score = s1, team2Score = s2\<rparr>"
  from record_loop_Some [OF loop] obtain r k where
    r: "r < length (brackets t)" and k: "k < length (matches (brackets t ! r))"
    and mid: "matchId (matches (brackets t ! r) ! k) = mid"
    and first: "\<forall>r'<r. \<forall>m\<in>set (matches (brackets t ! r')). matchId m \<noteq> mid"
      "\<forall>k'<k. matchId (matches (brackets t ! r) ! k') \<noteq> mid"
    and bs': "bs' = (brackets t)[r := (brackets t ! r)\<lparr>matches := (matches (brackets t ! r))
                 [k := complete_match (Some w) ?sc now (matches (brackets t ! r) ! k)]\<rparr>]"
    by blast
  let ?f = "\<lambda>b. b\<lparr>matches := (matches (brackets t ! r))
                 [k := complete_match (Some w) ?sc now (matches (brackets t ! r) ! k)]\<rparr>"
  have bs'f: "bs' = (brackets t)[r := ?f (brackets t ! r)]"
    using bs' by simp
  have br: "brackets t' = bs'"
    using t' by simp
  have upd: "t' = t\<lparr>brackets := (brackets t)
             [r := (brackets t ! r)\<lparr>matches := (matches (brackets t ! r))
                [k := complete_match (Some w) ?sc now (matches (brackets t ! r) ! k)]\<rparr>]\<rparr>"
    using t' bs' by simp
  have new: "matches (brackets t' ! r) ! k =
       (matches (brackets t ! r) ! k)
         \<lparr>winner := Some w, matchScore := Some ?sc,
          matchStatus := MCompleted, completedAt := Some now\<rparr>"
    unfolding br bs' using r k by (simp add: complete_match_def)
  have others: "\<forall>r' k'. r' < length (brackets t) \<and> k' < length (matches (brackets t ! r')) \<and>
              (r' \<noteq> r \<or> k' \<noteq> k)
        \<longrightarrow> matches (brackets t' ! r') ! k' = matches (brackets t ! r') ! k'"
    unfolding br bs' using r k by (auto simp: nth_list_update)
  have rn: "map roundNo (brackets t') = map roundNo (brackets t)"
    unfolding br bs'f by (rule map_update_same) simp
  have ids: "map (\<lambda>b. map matchId (matches b)) (brackets t') =
       map (\<lambda>b. map matchId (matches b)) (brackets t)"
    unfolding br bs'f by (rule map_update_same) (simp add: map_update_same)
  have "map team1 ((matches (brackets t ! r))
      [k := complete_match (Some w) ?sc now (matches (brackets t ! r) ! k)]) =
      map team1 (matches (brackets t ! r))"
    by (rule map_update_same) (simp add: complete_match_def)
  then have t1: "map (\<lambda>b. map team1 (matches b)) (brackets t') =
       map (\<lambda>b. map team1 (matches b)) (brackets t)"
    unfolding br bs'f
    by (intro map_update_same) simp
  have "map team2 ((matches (brackets t ! r))
      [k := complete_match (Some w) ?sc now (matches (brackets t ! r) ! k)]) =
      map team2 (matches (brackets t ! r))"
    by (rule map_update_same) (simp add: complete_match_def)
  then have t2: "map (\<lambda>b. map team2 (matches b)) (brackets t') =
       map (\<lambda>b. map team2 (matches b)) (brackets t)"
    unfolding br bs'f
    by (intro map_update_same) simp
  have rest: "participants t' = participants t \<and> chat t' = chat t \<and> status t' = status t \<and>
     dates t' = dates t \<and> statistics t' = statistics t \<and> organizer t' = organizer t \<and>
     name t' = name t \<and> tournamentId t' = tournamentId t"
    using t' by simp
  show ?thesis
    apply (rule exI [of _ r], rule exI [of _ k], rule exI [of _ w], rule exI [of _ s1],
        rule exI [of _ s2])
    apply (intro conjI body r k mid first upd new others rn ids t1 t2)
    using rest apply simp_all
    done
qed

text \<open>
  C9 (amended): \<open>recordResult\<close> does not check that the winner is one of the two teams of
  the match. For every match id carried by a match of the bracket and every submitted
  winner that is a reference \<open>w\<close> (a value the schema casts to an ObjectId), whatever the
  two team references of the match are, the organizer's call succeeds and stores \<open>w\<close> as
  the winner of the first match with that id: the match found under the id afterwards is
  the one found before with winner \<open>w\<close>, the submitted score, the status \<open>completed\<close> and
  the completion timestamp. A non-empty winner that is no reference is not stored: the
  call fails with a server error.
\<close>

theorem C9_recordResult_no_membership_check:
  assumes "\<exists>b\<in>set (brackets t). \<exists>m\<in>set (matches b). matchId m = mid"
    and "caller = organizerId (organizer t)"
  shows "(\<exists>t' m.
      recordResult caller mid
        \<lparr>bodyWinner = WinnerId w, bodyTeam1Score = Some s1, bodyTeam2Score = Some s2\<rparr> now
        (Some t) = Inr t' \<and>
      findMatch mid (brackets t) = Some m \<and>
      findMatch mid (brackets t') =
        Some (m\<lparr>winner := Some w, matchScore := Some \<lparr>team1Score = s1, team2Score = s2\<rparr>,
                matchStatus := MCompleted, completedAt := Some now\<rparr>)) \<and>
    (s \<noteq> [] \<longrightarrow>
      recordResult caller mid
        \<lparr>bodyWinner = WinnerOther s, bodyTeam1Score = Some s1, bodyTeam2Score = Some s2\<rparr> now
        (Some t) = Inl ServerError)"
proof -
  let ?sc = "\<lparr>team1Score = s1, team2Score = s2\<rparr>"
  from record_loop_exists [OF assms(1)] obtain bs' where
    loop: "record_loop mid (Some w) ?sc now (brackets t) = Some bs'"
    by blast
  from record_loop_findMatch [OF loop] obtain m where
    m: "findMatch mid (brackets t) = Some m"
      "findMatch mid bs' = Some (complete_match (Some w) ?sc now m)"
    by blast
  have "recordResult caller mid
       \<lparr>bodyWinner = WinnerId w, bodyTeam1Score = Some s1, bodyTeam2Score = Some s2\<rparr> now (Some t)
       = Inr (t\<lparr>brackets := bs'\<rparr>)"
    using loop assms(2) by (simp add: recordResult_def)
  with m have stored: "\<exists>t' m.
      recordResult caller mid
        \<lparr>bodyWinner = WinnerId w, bodyTeam1Score = Some s1, bodyTeam2Score = Some s2\<rparr> now
        (Some t) = Inr t' \<and>
      findMatch mid (brackets t) = Some m \<and>
      findMatch mid (brackets t') =
        Some (m\<lparr>winner := Some w, matchScore := Some ?sc,
                matchStatus := MCompleted, completedAt := Some now\<rparr>)"
    by (simp add: complete_match_def)
  from record_loop_exists [OF assms(1)] obtain bs'' where
    "record_loop mid None ?sc now (brackets t) = Some bs''"
    by blast
  then have rejected: "s \<noteq> [] \<longrightarrow>
      recordResult caller mid
        \<lparr>bodyWinner = WinnerOther s, bodyTeam1Score = Some s1, bodyTeam2Score = Some s2\<rparr> now
        (Some t) = Inl ServerError"
    using assms(2) by (simp add: recordResult_def)
  from stored rejected show ?thesis
    by (rule conjI)
qed

text \<open>
  C9 (as stated, refuted). First input: the organizer submits the non-empty winner
  \<open>teamA\<close> for a match of the bracket; the value is no reference, the call fails with a
  server error and nothing is stored. Second input: two matches of a round carry the id
  \<open>R1M1\<close>; the winner submitted under that id is stored in the first of them, the match of
  the teams 1 and 2, and the match of the teams 3 and 4 keeps no winner.
\<close>

theorem C9_winner_not_stored:
  "recordResult 9 ''R1M2''
     \<lparr>bodyWinner = WinnerOther ''teamA'', bodyTeam1Score = Some 2, bodyTeam2Score = Some 1\<rparr>
     500 (Some (example_tournament\<lparr>brackets := example_brackets\<rparr>)) = Inl ServerError \<and>
   recordResult 9 ''R1M1'' (example_body_result 3) 500
     (Some (example_tournament\<lparr>brackets :=
        [\<lparr>roundNo = 1, matches = [example_match ''R1M1'' (Some 1) (Some 2),
                                  example_match ''R1M1'' (Some 3) (Some 4)]\<rparr>]\<rparr>)) =
   Inr (example_tournament\<lparr>brackets :=
        [\<lparr>roundNo = 1, matches =
           [(example_match ''R1M1'' (Some 1) (Some 2))
              \<lparr>winner := Some 3, matchScore := Some \<lparr>team1Score = 2, team2Score = 1\<rparr>,
               matchStatus := MCompleted, completedAt := Some 500\<rparr>,
            example_match ''R1M1'' (Some 3) (Some 4)]\<rparr>]\<rparr>) \<and>
   winner (example_match ''R1M1'' (Some 3) (Some 4)) = None"
  by (simp add: recordResult_def example_body_result_def example_tournament_def
      example_brackets_def example_match_def complete_match_def)

lemma example_recordResult:
  "recordResult 9 ''R1M2'' (example_body_result w) 500
     (Some (example_tournament\<lparr>brackets := example_brackets\<rparr>)) =
   Inr (example_tournament\<lparr>brackets :=
     [\<lparr>roundNo = 1, matches = [example_match ''R1M1'' (Some 1) (Some 2),
        (example_match ''R1M2'' (Some 3) (Some 4))
          \<lparr>winner := Some w, matchScore := Some \<lparr>team1Score = 2, team2Score = 1\<rparr>,
           matchStatus := MCompleted, completedAt := Some 500\<rparr>]\<rparr>,
      \<lparr>roundNo = 2, matches = [example_match ''R2M1'' None None]\<rparr>]\<rparr>)"
  by (simp add: recordResult_def example_body_result_def example_tournament_def
      example_brackets_def example_match_def complete_match_def)

text \<open>
  C5, witness: a result for the second match of round 1 of a bracket of two rounds; the
  slots of the final stay empty.
\<close>

theorem C5_recordResult_frame_witness:
  "\<exists>t'. recordResult 9 ''R1M2'' (example_body_result 3) 500
           (Some (example_tournament\<lparr>brackets := example_brackets\<rparr>)) = Inr t' \<and>
     map (\<lambda>b. map team1 (matches b)) (brackets t') = [[Some 1, Some 3], [None]] \<and>
     map (\<lambda>b. map team2 (matches b)) (brackets t') = [[Some 2, Some 4], [None]] \<and>
     map (\<lambda>b. map matchId (matches b)) (brackets t') = [[''R1M1'', ''R1M2''], [''R2M1'']] \<and>
     map roundNo (brackets t') = [1, 2] \<and>
     participants t' = participants example_tournament \<and>
     chat t' = chat example_tournament"
proof -
  let ?t = "example_tournament\<lparr>brackets := example_brackets\<rparr>"
  obtain t' where t': "recordResult 9 ''R1M2'' (example_body_result 3) 500 (Some ?t) = Inr t'"
    using example_recordResult [of 3] by blast
  from C5_recordResult_frame [OF t']
  have "map roundNo (brackets t') = map roundNo (brackets ?t) \<and>
     map (\<lambda>b. map matchId (matches b)) (brackets t') =
       map (\<lambda>b. map matchId (matches b)) (brackets ?t) \<and>
     map (\<lambda>b. map team1 (matches b)) (brackets t') =
       map (\<lambda>b. map team1 (matches b)) (brackets ?t) \<and>
     map (\<lambda>b. map team2 (matches b)) (brackets t') =
       map (\<lambda>b. map team2 (matches b)) (brackets ?t) \<and>
     participants t' = participants ?t \<and> chat t' = chat ?t"
    by blast
  then have "map (\<lambda>b. map team1 (matches b)) (brackets t') = [[Some 1, Some 3], [None]] \<and>
     map (\<lambda>b. map team2 (matches b)) (brackets t') = [[Some 2, Some 4], [None]] \<and>
     map (\<lambda>b. map matchId (matches b)) (brackets t') = [[''R1M1'', ''R1M2''], [''R2M1'']] \<and>
     map roundNo (brackets t') = [1, 2] \<and>
     participants t' = participants example_tournament \<and>
     chat t' = chat example_tournament"
    by (simp add: example_brackets_def example_match_def)
  with t' show ?thesis
    by (intro exI [of _ t']) simp
qed

text \<open>
  C9, witness: the match of the teams 3 and 4 is given the winner 77, which is neither;
  a team name in place of a reference is refused.
\<close>

theorem C9_recordResult_no_membership_check_witness:
  "(\<exists>t'. recordResult 9 ''R1M2'' (example_body_result 77) 500
           (Some (example_tournament\<lparr>brackets := example_brackets\<rparr>)) = Inr t' \<and>
     findMatch ''R1M2'' (brackets (example_tournament\<lparr>brackets := example_brackets\<rparr>)) =
       Some (example_match ''R1M2'' (Some 3) (Some 4)) \<and>
     findMatch ''R1M2'' (brackets t') =
       Some ((example_match ''R1M2'' (Some 3) (Some 4))
          \<lparr>winner := Some 77, matchScore := Some \<lparr>team1Score = 2, team2Score = 1\<rparr>,
           matchStatus := MCompleted, completedAt := Some 500\<rparr>)) \<and>
   recordResult 9 ''R1M2''
     \<lparr>bodyWinner = WinnerOther ''Team Rocket'', bodyTeam1Score = Some 2,
      bodyTeam2Score = Some 1\<rparr>
     500 (Some (example_tournament\<lparr>brackets := example_brackets\<rparr>)) = Inl ServerError"
proof -
  let ?t = "example_tournament\<lparr>brackets := example_brackets\<rparr>"
  have ex: "\<exists>b\<in>set (brackets ?t). \<exists>m\<in>set (matches b). matchId m = ''R1M2''"
    by (simp add: example_brackets_def example_match_def)
  have org: "9 = organizerId (organizer ?t)"
    by (simp add: example_tournament_def)
  have m: "findMatch ''R1M2'' (brackets ?t) = Some (example_match ''R1M2'' (Some 3) (Some 4))"
    by (simp add: findMatch_def example_brackets_def example_match_def)
  from C9_recordResult_no_membership_check [OF ex org, of 77 2 1 500 "''Team Rocket''"] m
  show ?thesis
    by (simp add: example_body_result_def)
qed

section \<open>Claims about the chat log\<close>















section \<open>Claims about ranking\<close>

text \<open>
  C6 (the code at the failing input): twelve active users with the total scores 120, 110,
  ..., 10. The user with the highest score has no user above and rank 1, and the nearby
  list of the global scope has eleven rows, with the ranks 1 to 11, not the ranks 1 to 6:
  the number of rows skipped is clamped at 0 while the limit stays 11.
\<close>

theorem C6_rank_one_gets_eleven_rows:
  "list_all isActive twelve_users \<and>
   usersAbove twelve_users None (totalScore (stats (example_user 1 120))) = 0 \<and>
   map_sum id (\<lambda>(userRank, nearby). (userRank, map npRank nearby, map npUserId nearby))
     (getUserRank twelve_users 1 None)
   = Inr (1, [1, 2, 3, 4, 5, 6, 7, 8, 9, 10, 11], [1, 2, 3, 4, 5, 6, 7, 8, 9, 10, 11])"
  by code_simp

end
